theory Spec2Isabelle
  imports Main
begin

section \<open>JavaScript strings and objects\<close>

text \<open>
  A JavaScript string is modelled as a \<open>string\<close>, read as a sequence of code points
  below 256.  The helpers below are the built-ins the two scripts call:
  \<open>String.prototype.trim\<close>, \<open>split\<close> with a one-character separator,
  \<open>Array.prototype.join\<close>, \<open>startsWith\<close> and \<open>replace\<close> with a string pattern
  (which replaces the first occurrence only).
\<close>

abbreviation dquote :: char where "dquote \<equiv> CHR 0x22"
abbreviation comma :: char where "comma \<equiv> CHR 0x2C"
abbreviation newline :: char where "newline \<equiv> CHR 0x0A"
abbreviation underscore :: char where "underscore \<equiv> CHR 0x5F"

definition is_ws :: "char \<Rightarrow> bool" where
  "is_ws c = (c = CHR 0x09 \<or> c = CHR 0x0A \<or> c = CHR 0x0B \<or> c = CHR 0x0C \<or>
              c = CHR 0x0D \<or> c = CHR 0x20 \<or> c = CHR 0xA0)"

definition js_trim :: "string \<Rightarrow> string" where
  "js_trim s = rev (dropWhile is_ws (rev (dropWhile is_ws s)))"

fun js_split :: "char \<Rightarrow> string \<Rightarrow> string list" where
  "js_split sep [] = [[]]"
| "js_split sep (c # cs) =
     (if c = sep then [] # js_split sep cs
      else (case js_split sep cs of
              [] \<Rightarrow> [[c]]
            | w # ws \<Rightarrow> (c # w) # ws))"

fun js_join :: "string \<Rightarrow> string list \<Rightarrow> string" where
  "js_join sep [] = []"
| "js_join sep [x] = x"
| "js_join sep (x # y # ys) = x @ sep @ js_join sep (y # ys)"

definition startsWith :: "string \<Rightarrow> string \<Rightarrow> bool" where
  "startsWith s p = (take (length p) s = p)"

fun replace_first :: "string \<Rightarrow> string \<Rightarrow> string \<Rightarrow> string" where
  "replace_first pat rep [] = (if pat = [] then rep else [])"
| "replace_first pat rep (c # cs) =
     (if startsWith (c # cs) pat then rep @ drop (length pat) (c # cs)
      else c # replace_first pat rep cs)"

text \<open>
  An object is modelled by its entries in the order \<open>Object.keys\<close> enumerates them:
  property names that are array indices first, in ascending numeric order, then the
  other names in the order of their creation.  \<open>obj_put\<close> is the assignment
  \<open>o[k] = v\<close> of a primitive value: it overwrites an own property in place, creates
  a new one at its place in the order, and does nothing for the name \<open>__proto__\<close>
  (the inherited setter ignores a primitive).  \<open>obj_get\<close> is \<open>o[k]\<close> for an own
  property, \<open>None\<close> standing for \<open>undefined\<close>; names inherited from
  \<open>Object.prototype\<close> are outside the model.
\<close>

type_synonym 'v obj = "(string \<times> 'v) list"

definition is_digit :: "char \<Rightarrow> bool" where
  "is_digit c = (48 \<le> (of_char c :: nat) \<and> (of_char c :: nat) \<le> 57)"

definition digits_val :: "string \<Rightarrow> nat" where
  "digits_val s = foldl (\<lambda>n c. 10 * n + ((of_char c :: nat) - 48)) 0 s"

definition array_index :: "string \<Rightarrow> nat option" where
  "array_index s =
     (if s \<noteq> [] \<and> list_all is_digit s \<and> (s = ''0'' \<or> hd s \<noteq> CHR ''0'')
         \<and> digits_val s < 4294967295
      then Some (digits_val s) else None)"

definition obj_keys :: "'v obj \<Rightarrow> string list" where
  "obj_keys obj = map fst obj"

definition obj_get :: "'v obj \<Rightarrow> string \<Rightarrow> 'v option" where
  "obj_get obj k = map_of obj k"

fun obj_insert :: "'v obj \<Rightarrow> string \<Rightarrow> 'v \<Rightarrow> 'v obj" where
  "obj_insert [] k v = [(k, v)]"
| "obj_insert ((k', v') # rest) k v =
     (if k' = k then (k, v) # rest
      else (case array_index k of
              None \<Rightarrow> (k', v') # obj_insert rest k v
            | Some i \<Rightarrow>
                (case array_index k' of
                   None \<Rightarrow> (k, v) # (k', v') # rest
                 | Some j \<Rightarrow> if i < j then (k, v) # (k', v') # rest
                             else (k', v') # obj_insert rest k v)))"

definition obj_put :: "'v obj \<Rightarrow> string \<Rightarrow> 'v \<Rightarrow> 'v obj" where
  "obj_put obj k v = (if k = ''__proto__'' then obj else obj_insert obj k v)"

section \<open>Attribute columns: \<open>flattenMetafields\<close> and \<open>extractMetafields\<close>\<close>

record metafield =
  mf_namespace :: string
  mf_key :: string
  mf_value :: string
  mf_type :: string

text \<open>
  \<open>flattenMetafields\<close> (export script): one property
  \<open>metafield_<namespace>_<key>\<close> per metafield, holding its value.
\<close>

definition column_name :: "string \<Rightarrow> string \<Rightarrow> string" where
  "column_name ns k = ''metafield_'' @ ns @ ''_'' @ k"

abbreviation col_of :: "metafield \<Rightarrow> string" where
  "col_of m \<equiv> column_name (mf_namespace m) (mf_key m)"

definition flattenMetafields :: "metafield list \<Rightarrow> string obj" where
  "flattenMetafields metafields =
     foldl (\<lambda>flattened m.
              obj_put flattened (column_name (mf_namespace m) (mf_key m)) (mf_value m))
           [] metafields"

text \<open>
  \<open>extractMetafields\<close> (import script): the callback run for every key of the row,
  and the loop over \<open>Object.keys(row)\<close>.  A cell is truthy iff it is a non-empty
  string.
\<close>

definition extractMetafields_cb :: "string obj \<Rightarrow> metafield list \<Rightarrow> string \<Rightarrow> metafield list" where
  "extractMetafields_cb row metafields k =
     (case obj_get row k of
        None \<Rightarrow> metafields
      | Some v \<Rightarrow>
          if startsWith k ''metafield_'' \<and> v \<noteq> [] then
            (let parts = js_split underscore (replace_first ''metafield_'' [] k) in
             if 2 \<le> length parts then
               metafields @
                 [\<lparr>mf_namespace = hd parts,
                   mf_key = js_join ''_'' (tl parts),
                   mf_value = v,
                   mf_type = ''single_line_text_field''\<rparr>]
             else metafields)
          else metafields)"

definition extractMetafields :: "string obj \<Rightarrow> metafield list" where
  "extractMetafields row = foldl (extractMetafields_cb row) [] (obj_keys row)"

section \<open>Tabular codec, write path: \<open>arrayToCSV\<close>\<close>










section \<open>Tabular codec, read path: \<open>parseCSVLine\<close> and \<open>parseCSV\<close>\<close>

text \<open>
  \<open>parseCSVLine\<close> scans the line once; the recursion is on the part of the line not
  yet read, so that \<open>line[i + 1]\<close> is the head of what follows the current character.
\<close>

fun parseCSVLine_loop :: "string \<Rightarrow> string list \<Rightarrow> string \<Rightarrow> bool \<Rightarrow> string list" where
  "parseCSVLine_loop [] values current inQuotes = values @ [js_trim current]"
| "parseCSVLine_loop (c # rest) values current inQuotes =
     (if c = dquote then
        (case rest of
           [] \<Rightarrow> parseCSVLine_loop rest values current (\<not> inQuotes)
         | d # rest' \<Rightarrow>
             if inQuotes \<and> d = dquote
             then parseCSVLine_loop rest' values (current @ [dquote]) inQuotes
             else parseCSVLine_loop rest values current (\<not> inQuotes))
      else if c = comma \<and> \<not> inQuotes then
        parseCSVLine_loop rest (values @ [js_trim current]) [] inQuotes
      else parseCSVLine_loop rest values (current @ [c]) inQuotes)"

definition parseCSVLine :: "string \<Rightarrow> string list" where
  "parseCSVLine line = parseCSVLine_loop line [] [] False"

text \<open>
  \<open>parseCSV\<close> returns the rows together with the warnings it printed; a warning
  carries the row number, the number of values found and the number expected.  The
  thrown error is the left injection.
\<close>

datatype warning = RowWarning nat nat nat

definition js_index :: "'a list \<Rightarrow> nat \<Rightarrow> 'a option" where
  "js_index xs i = (if i < length xs then Some (xs ! i) else None)"

definition or_empty :: "string option \<Rightarrow> string" where
  "or_empty v = (case v of None \<Rightarrow> [] | Some s \<Rightarrow> if s = [] then [] else s)"

definition make_row :: "string list \<Rightarrow> string list \<Rightarrow> string obj" where
  "make_row headers values =
     foldl (\<lambda>row (header, index). obj_put row header (or_empty (js_index values index)))
           [] (zip headers [0..<length headers])"

fun parseCSV_loop ::
  "string list \<Rightarrow> nat \<Rightarrow> string list \<Rightarrow> string obj list \<times> warning list
     \<Rightarrow> string obj list \<times> warning list" where
  "parseCSV_loop headers i [] (data, warnings) = (data, warnings)"
| "parseCSV_loop headers i (line # rest) (data, warnings) =
     (let values = parseCSVLine line in
      if length values \<noteq> length headers then
        parseCSV_loop headers (i + 1) rest
          (data, warnings @ [RowWarning (i + 1) (length values) (length headers)])
      else
        parseCSV_loop headers (i + 1) rest (data @ [make_row headers values], warnings))"

definition parseCSV :: "string \<Rightarrow> string + (string obj list \<times> warning list)" where
  "parseCSV content =
     (let lines = filter (\<lambda>line. js_trim line \<noteq> []) (js_split newline content) in
      if length lines < 2 then
        Inl ''CSV file must have at least a header row and one data row''
      else
        (let headers = map (\<lambda>h. js_trim (filter (\<lambda>c. c \<noteq> dquote) h))
                           (js_split comma (hd lines))
         in Inr (parseCSV_loop headers 1 (tl lines) ([], []))))"

section \<open>Batch writer\<close>

text \<open>
  The remote API is a parameter of the model.  Every request the script sends, and
  every pause it makes, is appended to a trace; the API's answer to a request may
  depend on the trace so far.  \<open>makeGraphQLRequest\<close> either rejects with a message
  (transport failure, unparsable answer, top-level GraphQL errors) or resolves with
  data:
  \<^item> for the variant query, the value of \<open>response.productVariant?.product?.id\<close>,
    \<open>None\<close> when it is undefined;
  \<^item> for the bulk update, the list \<open>userErrors\<close> given as the JSON text of each of
    its elements, or data in which \<open>productVariantsBulkUpdate.userErrors.length\<close>
    cannot be read, with the message of the resulting \<open>TypeError\<close>.
\<close>

datatype event =
    GetVariant "string option"
  | BulkUpdate string "string option" "metafield list"
  | Sleep nat

datatype lookup_reply = LookupRejected string | LookupResolved "string option"

datatype update_reply =
    UpdateRejected string
  | UpdateMalformed string
  | UpdateResolved "string list"

record remote =
  productVariant :: "event list \<Rightarrow> string option \<Rightarrow> lookup_reply"
  productVariantsBulkUpdate ::
    "event list \<Rightarrow> string \<Rightarrow> string option \<Rightarrow> metafield list \<Rightarrow> update_reply"

datatype extra = Action string | Response "string list" | Error string

record metafieldResult =
  mr_success :: bool
  mr_metafield :: metafield
  mr_extra :: extra

record detail =
  variantId :: "string option"
  variantTitle :: "string option"
  metafieldResults :: "metafieldResult list"

record results =
  success :: nat
  failed :: nat
  skipped :: nat
  details :: "detail list"

text \<open>A value interpolated into a template literal.\<close>

definition template_text :: "string option \<Rightarrow> string" where
  "template_text v = (case v of None \<Rightarrow> ''undefined'' | Some s \<Rightarrow> s)"

text \<open>\<open>JSON.stringify\<close> of an array, from the JSON text of its elements.\<close>

definition json_array :: "string list \<Rightarrow> string" where
  "json_array elems = ''['' @ js_join '','' elems @ '']''"

definition getProductIdFromVariantId ::
  "remote \<Rightarrow> event list \<Rightarrow> string option \<Rightarrow> string option \<times> event list" where
  "getProductIdFromVariantId api trace vid =
     (case productVariant api trace vid of
        LookupRejected msg \<Rightarrow> (None, trace @ [GetVariant vid])
      | LookupResolved pid \<Rightarrow> (pid, trace @ [GetVariant vid]))"

definition all_failed :: "metafield list \<Rightarrow> string \<Rightarrow> metafieldResult list" where
  "all_failed metafields msg =
     map (\<lambda>m. \<lparr>mr_success = False, mr_metafield = m, mr_extra = Error msg\<rparr>) metafields"

definition update_payload :: "metafield list \<Rightarrow> metafield list" where
  "update_payload metafields =
     map (\<lambda>m. \<lparr>mf_namespace = mf_namespace m, mf_key = mf_key m, mf_value = mf_value m,
               mf_type = (if mf_type m = [] then ''single_line_text_field'' else mf_type m)\<rparr>)
         metafields"

definition updateVariantMetafields ::
  "bool \<Rightarrow> remote \<Rightarrow> event list \<Rightarrow> string option \<Rightarrow> metafield list
     \<Rightarrow> metafieldResult list \<times> event list" where
  "updateVariantMetafields dryRun api trace vid metafields =
     (if length metafields = 0 then ([], trace)
      else if dryRun then
        (map (\<lambda>m. \<lparr>mr_success = True, mr_metafield = m, mr_extra = Action ''dry-run''\<rparr>)
             metafields, trace)
      else
        (case getProductIdFromVariantId api trace vid of
           (productId, trace1) \<Rightarrow>
             (case productId of
                None \<Rightarrow>
                  (all_failed metafields
                     (''Could not find product for variant '' @ template_text vid), trace1)
              | Some pid \<Rightarrow>
                  if pid = [] then
                    (all_failed metafields
                       (''Could not find product for variant '' @ template_text vid), trace1)
                  else
                    (let payload = update_payload metafields;
                         trace2 = trace1 @ [BulkUpdate pid vid payload]
                     in case productVariantsBulkUpdate api trace1 pid vid payload of
                          UpdateRejected msg \<Rightarrow> (all_failed metafields msg, trace2)
                        | UpdateMalformed msg \<Rightarrow> (all_failed metafields msg, trace2)
                        | UpdateResolved errors \<Rightarrow>
                            if 0 < length errors then
                              (all_failed metafields
                                 (''GraphQL errors: '' @ json_array errors), trace2)
                            else
                              (map (\<lambda>m. \<lparr>mr_success = True, mr_metafield = m,
                                         mr_extra = Response errors\<rparr>) metafields,
                               trace2)))))"

text \<open>
  The body of the loop of \<open>processBatch\<close>.  \<open>updateVariantMetafields\<close> catches every
  error itself, so the \<open>catch\<close> branch of the loop body is never entered and has no
  counterpart here.
\<close>

definition processBatch_body ::
  "bool \<Rightarrow> remote \<Rightarrow> results \<times> event list \<Rightarrow> string obj \<Rightarrow> results \<times> event list" where
  "processBatch_body dryRun api st variant =
     (let res = fst st; trace = snd st;
          vid = obj_get variant ''variant_id'';
          metafields = extractMetafields variant
      in if length metafields = 0 then (res\<lparr>skipped := skipped res + 1\<rparr>, trace)
         else
           (case updateVariantMetafields dryRun api trace vid metafields of
              (mrs, trace') \<Rightarrow>
                (let failCount = length (filter (\<lambda>r. \<not> mr_success r) mrs);
                     res1 = (if failCount = 0 then res\<lparr>success := success res + 1\<rparr>
                             else res\<lparr>failed := failed res + 1\<rparr>)
                 in (res1\<lparr>details := details res1 @
                            [\<lparr>variantId = vid,
                              variantTitle = obj_get variant ''variant_title'',
                              metafieldResults = mrs\<rparr>]\<rparr>,
                     trace'))))"

definition empty_results :: results where
  "empty_results = \<lparr>success = 0, failed = 0, skipped = 0, details = []\<rparr>"

definition processBatch ::
  "bool \<Rightarrow> remote \<Rightarrow> event list \<Rightarrow> string obj list \<Rightarrow> results \<times> event list" where
  "processBatch dryRun api trace variants =
     foldl (processBatch_body dryRun api) (empty_results, trace) variants"

text \<open>
  \<open>Array.prototype.slice\<close> with integer bounds: a negative bound counts from the end,
  and both are clamped to the array.
\<close>

definition js_slice :: "'a list \<Rightarrow> int \<Rightarrow> int \<Rightarrow> 'a list" where
  "js_slice xs s e =
     (let n = int (length xs);
          k = (if s < 0 then max (n + s) 0 else min s n);
          final = (if e < 0 then max (n + e) 0 else min e n)
      in take (nat (final - k)) (drop (nat k) xs))"

definition add_results :: "results \<Rightarrow> results \<Rightarrow> results" where
  "add_results totalResults batchResults =
     \<lparr>success = success totalResults + success batchResults,
      failed = failed totalResults + failed batchResults,
      skipped = skipped totalResults + skipped batchResults,
      details = details totalResults @ details batchResults\<rparr>"

text \<open>
  The batch loop of \<open>importVariants\<close>: its body (one batch, the totals, the pause
  before the next batch of a live run) and the loop.  The loop does not end when the
  batch size is zero or negative, so it is a partial function: \<open>None\<close> is a run
  that never returns.
\<close>

definition importVariants_body ::
  "bool \<Rightarrow> int \<Rightarrow> remote \<Rightarrow> string obj list \<Rightarrow> int \<Rightarrow> results \<times> event list
     \<Rightarrow> results \<times> event list" where
  "importVariants_body dryRun batchSize api variants i st =
     (case processBatch dryRun api (snd st) (js_slice variants i (i + batchSize)) of
        (batchResults, trace1) \<Rightarrow>
          (add_results (fst st) batchResults,
           if i + batchSize < int (length variants) \<and> \<not> dryRun
           then trace1 @ [Sleep 1000] else trace1))"

partial_function (option) importVariants_loop ::
  "bool \<Rightarrow> int \<Rightarrow> remote \<Rightarrow> string obj list \<Rightarrow> int \<Rightarrow> results \<times> event list
     \<Rightarrow> (results \<times> event list) option" where
  "importVariants_loop dryRun batchSize api variants i st =
     (if i < int (length variants) then
        importVariants_loop dryRun batchSize api variants (i + batchSize)
          (importVariants_body dryRun batchSize api variants i st)
      else Some st)"

text \<open>
  \<open>importVariants\<close> on the text of the input file.  The batch size is what
  \<open>parseInt\<close> returned, \<open>None\<close> for \<open>NaN\<close>: then the first batch is empty and
  the loop ends after it, \<open>NaN\<close> comparing false.  A parse error ends the process with
  its message (the left injection).
\<close>

record config =
  dryRun :: bool
  batchSize :: "int option"

definition importVariants ::
  "config \<Rightarrow> remote \<Rightarrow> event list \<Rightarrow> string
     \<Rightarrow> (string + results \<times> event list) option" where
  "importVariants cfg api trace content =
     (case parseCSV content of
        Inl msg \<Rightarrow> Some (Inl msg)
      | Inr (variants, warnings) \<Rightarrow>
          (case batchSize cfg of
             None \<Rightarrow> Some (Inr (empty_results, trace))
           | Some n \<Rightarrow>
               map_option Inr
                 (importVariants_loop (dryRun cfg) n api variants 0 (empty_results, trace))))"

section \<open>Vocabulary of the properties\<close>

text \<open>
  The error text \<open>updateVariantMetafields\<close> captures for an answer to the bulk
  update: the message of a rejected request or of the \<open>TypeError\<close>, or the
  serialised \<open>userErrors\<close> when the API reports any; \<open>None\<close> for an accepted
  mutation.
\<close>

definition rejection_text :: "update_reply \<Rightarrow> string option" where
  "rejection_text reply =
     (case reply of
        UpdateRejected msg \<Rightarrow> Some msg
      | UpdateMalformed msg \<Rightarrow> Some msg
      | UpdateResolved errors \<Rightarrow>
          if errors = [] then None else Some (''GraphQL errors: '' @ json_array errors))"

text \<open>
  What the batch writer decided for a row it did not skip: the identifier and title it
  recorded and the attribute-map entries it extracted, read off a detail entry
  (\<open>decision\<close>) and off the row itself (\<open>row_decision\<close>).
\<close>

definition decision :: "detail \<Rightarrow> string option \<times> string option \<times> metafield list" where
  "decision d = (variantId d, variantTitle d, map mr_metafield (metafieldResults d))"

definition row_decision :: "string obj \<Rightarrow> string option \<times> string option \<times> metafield list" where
  "row_decision row =
     (obj_get row ''variant_id'', obj_get row ''variant_title'', extractMetafields row)"

text \<open>
  An event that writes no empty attribute value: every entry of a bulk update carries a
  non-empty value.
\<close>

fun nonempty_write :: "event \<Rightarrow> bool" where
  "nonempty_write (BulkUpdate pid vid ms) = list_all (\<lambda>m. mf_value m \<noteq> []) ms"
| "nonempty_write (GetVariant vid) = True"
| "nonempty_write (Sleep n) = True"

text \<open>
  Example data: a row with one attribute column, an API that finds every variant under
  product \<open>p1\<close> and rejects the update of one given variant with a user error, an
  API that finds no variant, the entry extracted from the example row, and a file of
  two data lines, the second with an empty attribute cell.
\<close>

definition example_row :: "string \<Rightarrow> string \<Rightarrow> string obj" where
  "example_row vid cell =
     [(''variant_id'', vid), (''variant_title'', ''Default Title''),
      (''metafield_custom_popular'', cell)]"

definition example_api :: "string \<Rightarrow> remote" where
  "example_api rejected =
     \<lparr>productVariant = (\<lambda>trace vid. LookupResolved (Some ''p1'')),
      productVariantsBulkUpdate =
        (\<lambda>trace pid vid ms.
           if vid = Some rejected then UpdateResolved [''{}''] else UpdateResolved [])\<rparr>"

definition unknown_variant_api :: remote where
  "unknown_variant_api =
     \<lparr>productVariant = (\<lambda>trace vid. LookupResolved None),
      productVariantsBulkUpdate = (\<lambda>trace pid vid ms. UpdateResolved [])\<rparr>"

definition example_entry :: "string \<Rightarrow> metafield" where
  "example_entry v =
     \<lparr>mf_namespace = ''custom'', mf_key = ''popular'', mf_value = v,
      mf_type = ''single_line_text_field''\<rparr>"

definition example_csv :: string where
  "example_csv =
     ''variant_id,variant_title,metafield_custom_popular'' @ [newline] @
     ''v1,Small,true'' @ [newline] @
     ''v2,Large,''"

text \<open>
  A row is skipped when \<open>extractMetafields\<close> returns no entry
  (\<open>metafields.length === 0\<close>).
\<close>

definition is_skipped :: "string obj \<Rightarrow> bool" where
  "is_skipped row = (extractMetafields row = [])"

text \<open>
  The requests \<open>updateVariantMetafields\<close> can send for one row: none, the
  variant query alone, or the variant query followed by one bulk update that carries
  the payload of the row.
\<close>

definition request_events :: "string option \<Rightarrow> metafield list \<Rightarrow> event list \<Rightarrow> bool" where
  "request_events vid ms evs =
     (evs = [] \<or> evs = [GetVariant vid]
      \<or> (\<exists>pid. evs = [GetVariant vid, BulkUpdate pid vid (update_payload ms)]))"

text \<open>
  The summary kept along a run over the rows processed so far: the skipped rows are
  counted and have no detail entry, every other row has one detail entry, in order,
  counted as success or failed; the trace is extended by events that write no empty
  value; a dry run leaves the trace as it was and reports no failure.
\<close>

definition run_summary ::
  "bool \<Rightarrow> event list \<Rightarrow> string obj list \<Rightarrow> results \<times> event list \<Rightarrow> bool" where
  "run_summary d t rows st =
     (skipped (fst st) = length (filter is_skipped rows)
      \<and> map decision (details (fst st)) = map row_decision (filter (\<lambda>v. \<not> is_skipped v) rows)
      \<and> success (fst st) + failed (fst st) = length (filter (\<lambda>v. \<not> is_skipped v) rows)
      \<and> length (details (fst st)) = length (filter (\<lambda>v. \<not> is_skipped v) rows)
      \<and> (\<exists>evs. snd st = t @ evs \<and> list_all nonempty_write evs)
      \<and> (d \<longrightarrow> snd st = t \<and> failed (fst st) = 0))"






text \<open>
  The read path in the words of its contract: the non-blank lines of the text, the
  column names of the header line, the lines whose fields, as \<open>parseCSVLine\<close> finds
  them, are as many as the column names, and the warning printed for any other line.
\<close>

definition well_formed_line :: "string list \<Rightarrow> string \<Rightarrow> bool" where
  "well_formed_line headers line = (length (parseCSVLine line) = length headers)"

definition line_warning :: "string list \<Rightarrow> nat \<times> string \<Rightarrow> warning" where
  "line_warning headers il =
     RowWarning (fst il + 1) (length (parseCSVLine (snd il))) (length headers)"

definition csv_lines :: "string \<Rightarrow> string list" where
  "csv_lines content = filter (\<lambda>line. js_trim line \<noteq> []) (js_split newline content)"

definition csv_headers :: "string \<Rightarrow> string list" where
  "csv_headers line = map (\<lambda>h. js_trim (filter (\<lambda>c. c \<noteq> dquote) h)) (js_split comma line)"

text \<open>
  Example files: one with a data line that is too short, one with a quoted comma.
\<close>

definition short_line_csv :: string where
  "short_line_csv =
     ''variant_id,metafield_custom_popular'' @ [newline] @
     ''v1,true'' @ [newline] @
     ''v2'' @ [newline] @
     ''v3,false''"

definition quoted_comma_csv :: string where
  "quoted_comma_csv =
     ''variant_id,metafield_custom_note'' @ [newline] @
     [dquote] @ ''v,1'' @ [dquote] @ '',hello''"




text \<open>
  The product identifier the variant query found: none when the request is rejected or
  its answer holds no identifier (\<open>if (!productId)\<close>).
\<close>

definition found_product :: "lookup_reply \<Rightarrow> string option" where
  "found_product reply =
     (case reply of
        LookupRejected msg \<Rightarrow> None
      | LookupResolved None \<Rightarrow> None
      | LookupResolved (Some pid) \<Rightarrow> if pid = [] then None else Some pid)"

text \<open>
  The identifiers of the variant queries in a list of events, in order.
\<close>

fun lookup_ids :: "event list \<Rightarrow> string option list" where
  "lookup_ids [] = []"
| "lookup_ids (GetVariant vid # evs) = vid # lookup_ids evs"
| "lookup_ids (BulkUpdate pid vid ms # evs) = lookup_ids evs"
| "lookup_ids (Sleep n # evs) = lookup_ids evs"

text \<open>
  What a dry run reports: for every row it does not skip, a detail entry whose entries
  are all marked as successful dry-run results; no failure.
\<close>

definition dry_detail :: "string obj \<Rightarrow> detail" where
  "dry_detail row =
     \<lparr>variantId = obj_get row ''variant_id'',
      variantTitle = obj_get row ''variant_title'',
      metafieldResults =
        map (\<lambda>m. \<lparr>mr_success = True, mr_metafield = m, mr_extra = Action ''dry-run''\<rparr>)
            (extractMetafields row)\<rparr>"

definition dry_result :: "string obj list \<Rightarrow> results" where
  "dry_result rows =
     \<lparr>success = length (filter (\<lambda>v. \<not> is_skipped v) rows),
      failed = 0,
      skipped = length (filter is_skipped rows),
      details = map dry_detail (filter (\<lambda>v. \<not> is_skipped v) rows)\<rparr>"

text \<open>
  The summary kept along a live run: the run summary, and one variant query for every
  row not skipped, in row order.
\<close>

definition live_summary :: "event list \<Rightarrow> string obj list \<Rightarrow> results \<times> event list \<Rightarrow> bool" where
  "live_summary t rows st =
     (run_summary False t rows st
      \<and> (\<exists>evs. snd st = t @ evs
             \<and> lookup_ids evs =
                 map (\<lambda>v. obj_get v ''variant_id'') (filter (\<lambda>v. \<not> is_skipped v) rows)))"

section \<open>Properties of the string helpers and of the attribute columns\<close>


lemma js_split_nonempty: "js_split sep s \<noteq> []"
  by (induction s) (auto split: list.splits)


lemma js_split_append:
  "sep \<notin> set a \<Longrightarrow> js_split sep (a @ sep # b) = a # js_split sep b"
  by (induction a) (auto split: list.splits)

lemma js_join_split: "js_join [sep] (js_split sep s) = s"
proof (induction s)
  case Nil
  then show ?case by simp
next
  case (Cons c cs)
  show ?case
  proof (cases "c = sep")
    case True
    obtain w ws where "js_split sep cs = w # ws"
      using js_split_nonempty by (cases "js_split sep cs") auto
    with Cons True show ?thesis by simp
  next
    case False
    obtain w ws where ws: "js_split sep cs = w # ws"
      using js_split_nonempty by (cases "js_split sep cs") auto
    with Cons False show ?thesis by (cases ws) auto
  qed
qed

lemma js_split_hd_no_sep: "sep \<notin> set (hd (js_split sep s))"
  by (induction s) (auto split: list.splits)

lemma js_split_length2:
  "2 \<le> length (js_split sep s) \<longleftrightarrow> sep \<in> set s"
  by (induction s) (auto split: list.splits simp: js_split_nonempty)

lemma js_split_decompose:
  assumes "2 \<le> length (js_split sep s)"
  shows "s = hd (js_split sep s) @ sep # js_join [sep] (tl (js_split sep s))"
proof -
  obtain w ws where ws: "js_split sep s = w # ws"
    using js_split_nonempty by (cases "js_split sep s") auto
  with assms obtain x xs where "ws = x # xs" by (cases ws) auto
  with ws have "js_join [sep] (js_split sep s) = w @ sep # js_join [sep] ws" by simp
  then have "s = w @ sep # js_join [sep] ws" by (simp only: js_join_split)
  then show ?thesis using ws by simp
qed

lemma startsWith_append: "startsWith (p @ s) p"
  by (simp add: startsWith_def)

lemma startsWith_iff: "startsWith s p \<longleftrightarrow> (\<exists>r. s = p @ r)"
  unfolding startsWith_def
  by (metis append_eq_conv_conj append_take_drop_id)

lemma replace_first_prefix: "p \<noteq> [] \<Longrightarrow> replace_first p [] (p @ r) = r"
proof (cases "p @ r")
  case Nil
  then show ?thesis by simp
next
  case (Cons a list)
  have "startsWith (a # list) p" using Cons startsWith_append [of p r] by simp
  then have "replace_first p [] (a # list) = drop (length p) (a # list)" by simp
  then show ?thesis using Cons by (metis append_eq_conv_conj)
qed


subsection \<open>Extraction\<close>

lemma cb_append:
  "extractMetafields_cb row acc k = acc @ extractMetafields_cb row [] k"
  by (simp add: extractMetafields_cb_def Let_def split: option.splits)

lemma foldl_cb:
  "foldl (extractMetafields_cb row) acc ks = acc @ concat (map (extractMetafields_cb row []) ks)"
proof (induction ks arbitrary: acc)
  case Nil
  then show ?case by simp
next
  case (Cons k ks)
  have "foldl (extractMetafields_cb row) acc (k # ks) =
          extractMetafields_cb row acc k @ concat (map (extractMetafields_cb row []) ks)"
    by (simp add: Cons.IH)
  also have "extractMetafields_cb row acc k = acc @ extractMetafields_cb row [] k"
    by (rule cb_append)
  finally show ?case by simp
qed

lemma extractMetafields_concat:
  "extractMetafields row = concat (map (extractMetafields_cb row []) (obj_keys row))"
  by (simp add: extractMetafields_def foldl_cb)

lemma column_name_startsWith: "startsWith (column_name ns k) ''metafield_''"
  unfolding column_name_def by (rule startsWith_append)

lemma column_name_rest:
  "replace_first ''metafield_'' [] (column_name ns k) = ns @ underscore # k"
  unfolding column_name_def using replace_first_prefix [of "''metafield_''" "ns @ ''_'' @ k"]
  by simp

lemma cb_member:
  assumes "m \<in> set (extractMetafields_cb row [] c)"
  shows "column_name (mf_namespace m) (mf_key m) = c \<and> obj_get row c = Some (mf_value m)
         \<and> mf_value m \<noteq> [] \<and> mf_type m = ''single_line_text_field''"
proof -
  from assms obtain v where v: "obj_get row c = Some v"
    by (cases "obj_get row c") (auto simp: extractMetafields_cb_def)
  let ?parts = "js_split underscore (replace_first ''metafield_'' [] c)"
  from assms v have sw: "startsWith c ''metafield_''" and ne: "v \<noteq> []"
    and len: "2 \<le> length ?parts"
    by (auto simp: extractMetafields_cb_def Let_def split: if_splits)
  from assms v sw ne len
  have m: "m = \<lparr>mf_namespace = hd ?parts, mf_key = js_join ''_'' (tl ?parts),
                 mf_value = v, mf_type = ''single_line_text_field''\<rparr>"
    by (simp add: extractMetafields_cb_def Let_def)
  from sw obtain r where r: "c = ''metafield_'' @ r"
    unfolding startsWith_iff by blast
  have rf: "replace_first ''metafield_'' [] c = r"
    unfolding r by (rule replace_first_prefix) simp
  from len have dec: "hd (js_split underscore r) @ underscore # js_join ''_'' (tl (js_split underscore r)) = r"
    unfolding rf by (rule js_split_decompose [symmetric])
  have "column_name (mf_namespace m) (mf_key m) =
          ''metafield_'' @ (hd (js_split underscore r) @ underscore # js_join ''_'' (tl (js_split underscore r)))"
    unfolding m rf by (simp add: column_name_def)
  also have "\<dots> = c" unfolding dec r ..
  finally have "column_name (mf_namespace m) (mf_key m) = c" .
  moreover have "mf_value m = v" "mf_type m = ''single_line_text_field''"
    unfolding m by simp_all
  ultimately show ?thesis using v ne by simp
qed

lemma cb_column:
  assumes "obj_get row (column_name ns k) = Some v" and "v \<noteq> []"
  shows "extractMetafields_cb row [] (column_name ns k) =
           [\<lparr>mf_namespace = hd (js_split underscore (ns @ underscore # k)),
             mf_key = js_join ''_'' (tl (js_split underscore (ns @ underscore # k))),
             mf_value = v, mf_type = ''single_line_text_field''\<rparr>]"
proof -
  have "2 \<le> length (js_split underscore (ns @ underscore # k))"
    by (simp add: js_split_length2)
  then show ?thesis using assms
    by (simp add: extractMetafields_cb_def Let_def column_name_startsWith column_name_rest)
qed

lemma cb_column_plain:
  assumes "obj_get row (column_name ns k) = Some v" and "v \<noteq> []" and "underscore \<notin> set ns"
  shows "extractMetafields_cb row [] (column_name ns k) =
           [\<lparr>mf_namespace = ns, mf_key = k, mf_value = v, mf_type = ''single_line_text_field''\<rparr>]"
  using cb_column [OF assms(1,2)] js_split_append [OF assms(3), of k] js_join_split [of underscore k]
  by simp

lemma cb_empty_cell:
  "obj_get row c = Some [] \<Longrightarrow> extractMetafields_cb row acc c = acc"
  by (simp add: extractMetafields_cb_def)

subsection \<open>Objects\<close>

lemma obj_insert_keys: "fst ` set (obj_insert obj k v) = insert k (fst ` set obj)"
  by (induction obj k v rule: obj_insert.induct) (simp_all split: option.splits add: insert_commute)

lemma obj_insert_fresh:
  "k \<notin> set (map fst obj) \<Longrightarrow> array_index k = None \<Longrightarrow> obj_insert obj k v = obj @ [(k, v)]"
  by (induction obj k v rule: obj_insert.induct) auto

lemma array_index_column_name: "array_index (column_name ns k) = None"
  by (simp add: array_index_def column_name_def is_digit_def)

lemma column_name_not_proto: "column_name ns k \<noteq> ''__proto__''"
  by (simp add: column_name_def)

lemma obj_put_column_fresh:
  "column_name ns k \<notin> set (map fst obj) \<Longrightarrow>
     obj_put obj (column_name ns k) v = obj @ [(column_name ns k, v)]"
  by (simp add: obj_put_def column_name_not_proto obj_insert_fresh array_index_column_name)


lemma flatten_snoc:
  "flattenMetafields (ms @ [m]) = obj_put (flattenMetafields ms) (col_of m) (mf_value m)"
  by (simp add: flattenMetafields_def)

lemma flatten_keys: "set (obj_keys (flattenMetafields ms)) = col_of ` set ms"
proof (induction ms rule: rev_induct)
  case Nil
  then show ?case by (simp add: flattenMetafields_def obj_keys_def)
next
  case (snoc m ms)
  then show ?case
    by (simp add: flatten_snoc obj_put_def column_name_not_proto obj_keys_def obj_insert_keys)
qed

lemma flatten_distinct:
  "distinct (map col_of ms) \<Longrightarrow> flattenMetafields ms = map (\<lambda>m. (col_of m, mf_value m)) ms"
proof (induction ms rule: rev_induct)
  case Nil
  then show ?case by (simp add: flattenMetafields_def)
next
  case (snoc m ms)
  then have IH: "flattenMetafields ms = map (\<lambda>m. (col_of m, mf_value m)) ms"
    by simp
  from snoc.prems have fresh: "col_of m \<notin> set (map fst (flattenMetafields ms))"
    unfolding IH by (auto simp: comp_def)
  have "flattenMetafields (ms @ [m]) = flattenMetafields ms @ [(col_of m, mf_value m)]"
    unfolding flatten_snoc by (rule obj_put_column_fresh [OF fresh])
  then show ?case unfolding IH by simp
qed


lemma extract_member:
  "m \<in> set (extractMetafields row) \<longleftrightarrow> (\<exists>c\<in>set (obj_keys row). m \<in> set (extractMetafields_cb row [] c))"
  by (auto simp: extractMetafields_concat)

lemma obj_get_distinct:
  "distinct (obj_keys row) \<Longrightarrow> (c, v) \<in> set row \<Longrightarrow> obj_get row c = Some v"
  by (simp add: obj_keys_def obj_get_def)

lemma extract_values_nonempty:
  "m \<in> set (extractMetafields row) \<Longrightarrow> mf_value m \<noteq> []"
  using cb_member by (auto simp: extract_member)

lemma extract_from_column:
  assumes "distinct (obj_keys row)" and "(c, v) \<in> set row"
  shows "(\<exists>m\<in>set (extractMetafields row). col_of m = c) \<longleftrightarrow>
         (v \<noteq> [] \<and> (\<exists>ns k. c = column_name ns k))"
proof
  assume "\<exists>m\<in>set (extractMetafields row). col_of m = c"
  then obtain m c' where m: "m \<in> set (extractMetafields_cb row [] c')" and c: "col_of m = c"
    by (auto simp: extract_member)
  from cb_member [OF m] c have "obj_get row c = Some (mf_value m)" "mf_value m \<noteq> []"
    by auto
  moreover have "obj_get row c = Some v" using assms by (rule obj_get_distinct)
  ultimately have "v \<noteq> []" by simp
  then show "v \<noteq> [] \<and> (\<exists>ns k. c = column_name ns k)" using c by blast
next
  assume r: "v \<noteq> [] \<and> (\<exists>ns k. c = column_name ns k)"
  then obtain ns k where c: "c = column_name ns k" by blast
  have g: "obj_get row (column_name ns k) = Some v"
    using assms unfolding c by (rule obj_get_distinct)
  from cb_column [OF g] r obtain m where m: "extractMetafields_cb row [] c = [m]"
    unfolding c by blast
  then have mc: "m \<in> set (extractMetafields_cb row [] c)" by simp
  have cm: "col_of m = c" using cb_member [OF mc] by simp
  have "c \<in> set (obj_keys row)" using assms(2) by (force simp: obj_keys_def)
  with mc have "m \<in> set (extractMetafields row)"
    by (auto simp: extract_member)
  with cm show "\<exists>m\<in>set (extractMetafields row). col_of m = c" by blast
qed

text \<open>
  C5 (amended).  The exporter names the flattened column of a metafield with namespace
  \<open>ns\<close> and key \<open>k\<close> \<open>metafield_ns_k\<close>: the keys of the flattened object
  are exactly these names.  The importer recognises as attribute-map entries exactly the
  columns with a non-empty cell whose name has that form: an extracted entry flattens
  back to the column \<open>c\<close> iff the cell of \<open>c\<close> is non-empty and \<open>c\<close> is
  \<open>metafield_\<close>, a namespace, an underscore and a key.
\<close>

theorem column_naming_convention:
  assumes "distinct (obj_keys row)" and "(c, v) \<in> set row"
  shows "set (obj_keys (flattenMetafields ms)) =
           (\<lambda>m. ''metafield_'' @ mf_namespace m @ ''_'' @ mf_key m) ` set ms
       \<and> ((\<exists>m\<in>set (extractMetafields row).
              ''metafield_'' @ mf_namespace m @ ''_'' @ mf_key m = c)
            \<longleftrightarrow> (v \<noteq> [] \<and> (\<exists>ns k. c = ''metafield_'' @ ns @ ''_'' @ k)))"
  using flatten_keys [of ms] extract_from_column [OF assms]
  unfolding column_name_def by simp

text \<open>
  The convention at the column \<open>metafield_custom_popular\<close>.
\<close>

theorem column_naming_convention_witness:
  "set (obj_keys (flattenMetafields
         [\<lparr>mf_namespace = ''custom'', mf_key = ''popular'', mf_value = ''true'',
           mf_type = ''boolean''\<rparr>])) = {''metafield_custom_popular''}
   \<and> (\<exists>m\<in>set (extractMetafields
                 [(''variant_id'', ''v1''), (''metafield_custom_popular'', ''true'')]).
         ''metafield_'' @ mf_namespace m @ ''_'' @ mf_key m = ''metafield_custom_popular'')"
proof -
  have d: "distinct (obj_keys [(''variant_id'', ''v1''), (''metafield_custom_popular'', ''true'')])"
    by (simp add: obj_keys_def)
  have i: "(''metafield_custom_popular'', ''true'')
             \<in> set [(''variant_id'', ''v1''), (''metafield_custom_popular'', ''true'')]"
    by simp
  have e: "\<exists>ns k. ''metafield_custom_popular'' = ''metafield_'' @ ns @ ''_'' @ k"
    by (rule exI [of _ "''custom''"], rule exI [of _ "''popular''"]) simp
  show ?thesis
    using column_naming_convention [OF d i,
        of "[\<lparr>mf_namespace = ''custom'', mf_key = ''popular'', mf_value = ''true'',
              mf_type = ''boolean''\<rparr>]"] e
    by simp
qed

text \<open>
  C5 as stated fails: the column of the pair (custom, popular) is
  \<open>metafield_custom_popular\<close>, not \<open>attribute_custom_popular\<close>, and the importer
  extracts nothing from a populated column named \<open>attribute_custom_popular\<close>.
\<close>

theorem column_naming_counterexample:
  "obj_keys (flattenMetafields
      [\<lparr>mf_namespace = ''custom'', mf_key = ''popular'', mf_value = ''true'',
        mf_type = ''boolean''\<rparr>]) = [''metafield_custom_popular'']
   \<and> ''metafield_custom_popular'' \<noteq> ''attribute_custom_popular''
   \<and> extractMetafields [(''variant_id'', ''v1''), (''attribute_custom_popular'', ''true'')] = []"
  by (simp add: flattenMetafields_def obj_put_def column_name_def array_index_def is_digit_def
        obj_keys_def extractMetafields_def extractMetafields_cb_def obj_get_def startsWith_def)

text \<open>
  C6 (amended).  For metafields whose namespaces contain no underscore and whose values
  are non-empty (and whose column names differ), extracting from the flattened object
  recovers every namespace, key and value; the type is the importer's default.
\<close>

theorem extract_inverts_flatten:
  assumes "distinct (map (\<lambda>m. column_name (mf_namespace m) (mf_key m)) ms)"
    and "\<forall>m\<in>set ms. underscore \<notin> set (mf_namespace m) \<and> mf_value m \<noteq> []"
  shows "extractMetafields (flattenMetafields ms) =
           map (\<lambda>m. m\<lparr>mf_type := ''single_line_text_field''\<rparr>) ms"
proof -
  let ?row = "map (\<lambda>m. (col_of m, mf_value m)) ms"
  have row: "flattenMetafields ms = ?row" using assms(1) by (rule flatten_distinct)
  have keys: "obj_keys ?row = map col_of ms" by (simp add: obj_keys_def comp_def)
  have get: "obj_get ?row (col_of m) = Some (mf_value m)" if "m \<in> set ms" for m
  proof (rule obj_get_distinct)
    show "distinct (obj_keys ?row)" unfolding keys using assms(1) .
    show "(col_of m, mf_value m) \<in> set ?row" using that by auto
  qed
  have one: "extractMetafields_cb ?row [] (col_of m) = [m\<lparr>mf_type := ''single_line_text_field''\<rparr>]"
    if "m \<in> set ms" for m
    using cb_column_plain [OF get [OF that]] assms(2) that by simp
  have "extractMetafields ?row = concat (map (\<lambda>m. extractMetafields_cb ?row [] (col_of m)) ms)"
    unfolding extractMetafields_concat keys by (simp add: comp_def)
  also have "\<dots> = concat (map (\<lambda>m. [m\<lparr>mf_type := ''single_line_text_field''\<rparr>]) ms)"
    using one by (metis (no_types, lifting) map_eq_conv)
  also have "\<dots> = map (\<lambda>m. m\<lparr>mf_type := ''single_line_text_field''\<rparr>) ms"
    by (induction ms) simp_all
  finally show ?thesis unfolding row .
qed

text \<open>
  The inverse at the pair (custom, is_popular): underscores in the key are recovered.
\<close>

theorem extract_inverts_flatten_witness:
  "extractMetafields (flattenMetafields
      [\<lparr>mf_namespace = ''custom'', mf_key = ''is_popular'', mf_value = ''true'',
        mf_type = ''boolean''\<rparr>]) =
     [\<lparr>mf_namespace = ''custom'', mf_key = ''is_popular'', mf_value = ''true'',
        mf_type = ''single_line_text_field''\<rparr>]"
  using extract_inverts_flatten
    [of "[\<lparr>mf_namespace = ''custom'', mf_key = ''is_popular'', mf_value = ''true'',
           mf_type = ''boolean''\<rparr>]"]
  by simp

text \<open>
  C6 as stated fails for a namespace with an underscore: the column of the pair
  (my_fields, color) is decomposed into the namespace \<open>my\<close> and the key
  \<open>fields_color\<close>.
\<close>

theorem extract_inverts_flatten_counterexample:
  "extractMetafields (flattenMetafields
      [\<lparr>mf_namespace = ''my_fields'', mf_key = ''color'', mf_value = ''red'',
        mf_type = ''single_line_text_field''\<rparr>]) =
     [\<lparr>mf_namespace = ''my'', mf_key = ''fields_color'', mf_value = ''red'',
        mf_type = ''single_line_text_field''\<rparr>]
   \<and> ''my'' \<noteq> ''my_fields'' \<and> ''fields_color'' \<noteq> ''color''"
  by (simp add: flattenMetafields_def obj_put_def column_name_def array_index_def is_digit_def
        obj_keys_def extractMetafields_def extractMetafields_cb_def obj_get_def startsWith_def)

section \<open>Properties of the batch writer\<close>

lemma add_results_assoc:
  "add_results (add_results a b) c = add_results a (add_results b c)"
  by (simp add: add_results_def)

lemma add_results_empty [simp]: "add_results empty_results r = r" "add_results r empty_results = r"
  by (simp_all add: add_results_def empty_results_def)

lemma body_additive:
  "processBatch_body d api (res, t) v =
     (add_results res (fst (processBatch_body d api (empty_results, t) v)),
      snd (processBatch_body d api (empty_results, t) v))"
  by (simp add: processBatch_body_def Let_def add_results_def empty_results_def
           split: prod.splits)

lemma foldl_body:
  "foldl (processBatch_body d api) (res, t) vs =
     (add_results res (fst (processBatch d api t vs)), snd (processBatch d api t vs))"
proof (induction vs arbitrary: res t)
  case Nil
  then show ?case by (simp add: processBatch_def)
next
  case (Cons v vs)
  obtain r1 t1 where b: "processBatch_body d api (empty_results, t) v = (r1, t1)"
    by (cases "processBatch_body d api (empty_results, t) v")
  have b': "processBatch_body d api (res, t) v = (add_results res r1, t1)"
    using body_additive [of d api res t v] b by simp
  show ?case
    by (simp add: processBatch_def b b' Cons.IH [of r1 t1] Cons.IH [of "add_results res r1" t1]
          add_results_assoc)
qed

lemma processBatch_Nil: "processBatch d api t [] = (empty_results, t)"
  by (simp add: processBatch_def)

lemma processBatch_Cons:
  "processBatch d api t (v # vs) =
     (case processBatch_body d api (empty_results, t) v of
        (r1, t1) \<Rightarrow> (case processBatch d api t1 vs of
                       (r2, t2) \<Rightarrow> (add_results r1 r2, t2)))"
proof -
  obtain r1 t1 where b: "processBatch_body d api (empty_results, t) v = (r1, t1)"
    by (cases "processBatch_body d api (empty_results, t) v")
  have "processBatch d api t (v # vs) = foldl (processBatch_body d api) (r1, t1) vs"
    by (simp add: processBatch_def b)
  then show ?thesis by (simp add: foldl_body b split: prod.splits)
qed

lemma processBatch_append:
  "processBatch d api t (xs @ ys) =
     (case processBatch d api t xs of
        (r1, t1) \<Rightarrow> (case processBatch d api t1 ys of
                       (r2, t2) \<Rightarrow> (add_results r1 r2, t2)))"
proof -
  obtain r1 t1 where b: "processBatch d api t xs = (r1, t1)"
    by (cases "processBatch d api t xs")
  have "processBatch d api t (xs @ ys) = foldl (processBatch_body d api) (r1, t1) ys"
    using b by (simp add: processBatch_def)
  then show ?thesis by (simp add: foldl_body b split: prod.splits)
qed

subsection \<open>One row\<close>

lemma body_skip:
  "extractMetafields v = [] \<Longrightarrow>
     processBatch_body d api (empty_results, t) v =
       (\<lparr>success = 0, failed = 0, skipped = 1, details = []\<rparr>, t)"
  by (simp add: processBatch_body_def empty_results_def)

lemma update_dry:
  "ms \<noteq> [] \<Longrightarrow> updateVariantMetafields True api t vid ms =
     (map (\<lambda>m. \<lparr>mr_success = True, mr_metafield = m, mr_extra = Action ''dry-run''\<rparr>) ms, t)"
  by (simp add: updateVariantMetafields_def)

lemma update_metafields:
  "map mr_metafield (fst (updateVariantMetafields d api t vid ms)) = ms"
  by (simp add: updateVariantMetafields_def getProductIdFromVariantId_def all_failed_def Let_def
        comp_def split: lookup_reply.splits option.splits update_reply.splits)

lemma update_trace:
  "\<exists>evs. snd (updateVariantMetafields d api t vid ms) = t @ evs \<and> request_events vid ms evs"
  by (simp add: updateVariantMetafields_def getProductIdFromVariantId_def Let_def
        request_events_def split: lookup_reply.splits option.splits update_reply.splits)

lemma update_rejected:
  assumes "ms \<noteq> []"
    and "productVariant api t vid = LookupResolved (Some pid)" and "pid \<noteq> []"
    and "rejection_text (productVariantsBulkUpdate api (t @ [GetVariant vid]) pid vid
           (update_payload ms)) = Some msg"
  shows "updateVariantMetafields False api t vid ms =
           (all_failed ms msg, t @ [GetVariant vid, BulkUpdate pid vid (update_payload ms)])"
  using assms
  by (simp add: updateVariantMetafields_def getProductIdFromVariantId_def Let_def
        rejection_text_def split: update_reply.splits if_splits)

lemma all_failed_count:
  "length (filter (\<lambda>r. \<not> mr_success r) (all_failed ms msg)) = length ms"
  by (simp add: all_failed_def comp_def)

lemma body_rejected:
  assumes "extractMetafields v \<noteq> []"
    and "productVariant api t (obj_get v ''variant_id'') = LookupResolved (Some pid)"
    and "pid \<noteq> []"
    and "rejection_text (productVariantsBulkUpdate api (t @ [GetVariant (obj_get v ''variant_id'')])
           pid (obj_get v ''variant_id'') (update_payload (extractMetafields v))) = Some msg"
  shows "processBatch_body False api (empty_results, t) v =
           (\<lparr>success = 0, failed = 1, skipped = 0,
             details = [\<lparr>variantId = obj_get v ''variant_id'',
                         variantTitle = obj_get v ''variant_title'',
                         metafieldResults = all_failed (extractMetafields v) msg\<rparr>]\<rparr>,
            t @ [GetVariant (obj_get v ''variant_id''),
                 BulkUpdate pid (obj_get v ''variant_id'') (update_payload (extractMetafields v))])"
proof -
  have "length (filter (\<lambda>r. \<not> mr_success r) (all_failed (extractMetafields v) msg)) \<noteq> 0"
    unfolding all_failed_count using assms(1) by simp
  then have ne: "filter (\<lambda>r. \<not> mr_success r) (all_failed (extractMetafields v) msg) \<noteq> []"
    by simp
  show ?thesis
    using assms(1) update_rejected [OF assms] ne
    by (simp add: processBatch_body_def Let_def empty_results_def)
qed

lemma body_summary:
  assumes "processBatch_body d api (res, t) v = (res', t')"
  shows "skipped res' = skipped res + (if is_skipped v then 1 else 0)"
    and "map decision (details res') =
           map decision (details res) @ (if is_skipped v then [] else [row_decision v])"
    and "success res' + failed res' = success res + failed res + (if is_skipped v then 0 else 1)"
    and "length (details res') = length (details res) + (if is_skipped v then 0 else 1)"
    and "\<exists>evs. t' = t @ evs \<and> (if is_skipped v then evs = []
           else request_events (obj_get v ''variant_id'') (extractMetafields v) evs)"
    and "d \<Longrightarrow> t' = t \<and> failed res' = failed res"
proof -
  show "skipped res' = skipped res + (if is_skipped v then 1 else 0)"
    using assms
    by (auto simp: processBatch_body_def Let_def is_skipped_def split: prod.splits if_splits)
  show "map decision (details res') =
           map decision (details res) @ (if is_skipped v then [] else [row_decision v])"
  proof (cases "is_skipped v")
    case True
    then show ?thesis using assms
      by (auto simp: processBatch_body_def Let_def is_skipped_def)
  next
    case False
    obtain mrs t1 where u: "updateVariantMetafields d api t (obj_get v ''variant_id'')
                              (extractMetafields v) = (mrs, t1)"
      by (cases "updateVariantMetafields d api t (obj_get v ''variant_id'') (extractMetafields v)")
    have "map mr_metafield mrs = extractMetafields v"
      using update_metafields [of d api t "obj_get v ''variant_id''" "extractMetafields v"] u
      by simp
    then show ?thesis using assms False u
      by (auto simp: processBatch_body_def Let_def is_skipped_def decision_def row_decision_def)
  qed
  show "success res' + failed res' = success res + failed res + (if is_skipped v then 0 else 1)"
    using assms
    by (auto simp: processBatch_body_def Let_def is_skipped_def split: prod.splits if_splits)
  show "length (details res') = length (details res) + (if is_skipped v then 0 else 1)"
    using assms
    by (auto simp: processBatch_body_def Let_def is_skipped_def split: prod.splits if_splits)
  show "\<exists>evs. t' = t @ evs \<and> (if is_skipped v then evs = []
           else request_events (obj_get v ''variant_id'') (extractMetafields v) evs)"
  proof (cases "is_skipped v")
    case True
    then show ?thesis using assms
      by (auto simp: processBatch_body_def Let_def is_skipped_def)
  next
    case False
    obtain mrs t1 where u: "updateVariantMetafields d api t (obj_get v ''variant_id'')
                              (extractMetafields v) = (mrs, t1)"
      by (cases "updateVariantMetafields d api t (obj_get v ''variant_id'') (extractMetafields v)")
    have "t' = t1" using assms False u
      by (auto simp: processBatch_body_def Let_def is_skipped_def)
    then show ?thesis
      using update_trace [of d api t "obj_get v ''variant_id''" "extractMetafields v"] u False
      by simp
  qed
  show "t' = t \<and> failed res' = failed res" if "d"
  proof (cases "is_skipped v")
    case True
    then show ?thesis using assms
      by (auto simp: processBatch_body_def Let_def is_skipped_def)
  next
    case False
    then show ?thesis using assms that
      by (auto simp: processBatch_body_def Let_def is_skipped_def update_dry comp_def)
  qed
qed

subsection \<open>One batch\<close>

lemma processBatch_snoc:
  "processBatch d api t (vs @ [v]) = processBatch_body d api (processBatch d api t vs) v"
  by (simp add: processBatch_def)

lemma request_events_nonempty:
  assumes "request_events vid (extractMetafields v) evs"
  shows "list_all nonempty_write evs"
proof -
  have "list_all (\<lambda>m. mf_value m \<noteq> []) (update_payload (extractMetafields v))"
    using extract_values_nonempty [of _ v]
    by (auto simp: update_payload_def list_all_iff)
  then show ?thesis using assms by (auto simp: request_events_def)
qed

lemma batch_summary:
  assumes "processBatch d api t rows = (res, t')"
  shows "skipped res = length (filter is_skipped rows)
       \<and> map decision (details res) = map row_decision (filter (\<lambda>v. \<not> is_skipped v) rows)
       \<and> success res + failed res = length (filter (\<lambda>v. \<not> is_skipped v) rows)
       \<and> length (details res) = length (filter (\<lambda>v. \<not> is_skipped v) rows)
       \<and> (\<exists>evs. t' = t @ evs \<and> list_all nonempty_write evs)
       \<and> (d \<longrightarrow> t' = t \<and> failed res = 0)"
  using assms
proof (induction rows arbitrary: res t' rule: rev_induct)
  case Nil
  then show ?case by (auto simp: processBatch_Nil empty_results_def)
next
  case (snoc v vs)
  obtain r1 t1 where p: "processBatch d api t vs = (r1, t1)"
    by (cases "processBatch d api t vs")
  have b: "processBatch_body d api (r1, t1) v = (res, t')"
    using snoc.prems p by (simp add: processBatch_snoc)
  note IH = snoc.IH [OF p]
  note S = body_summary [OF b]
  from S(5) obtain evs where evs: "t' = t1 @ evs"
    and ev: "if is_skipped v then evs = []
             else request_events (obj_get v ''variant_id'') (extractMetafields v) evs"
    by blast
  have good: "list_all nonempty_write evs"
    using ev request_events_nonempty [of "obj_get v ''variant_id''" v evs]
    by (cases "is_skipped v") auto
  from IH obtain evs0 where evs0: "t1 = t @ evs0" "list_all nonempty_write evs0" by blast
  have tr: "\<exists>evs. t' = t @ evs \<and> list_all nonempty_write evs"
    using evs evs0 good by auto
  have dry: "d \<longrightarrow> t' = t \<and> failed res = 0" using IH S(6) by auto
  show ?case using IH S(1-4) tr dry by simp
qed

lemma unpopulated_row_is_skipped:
  assumes "\<forall>(k, v)\<in>set row. startsWith k ''metafield_'' \<longrightarrow> v = []"
  shows "extractMetafields row = []"
proof -
  have "extractMetafields_cb row [] k = []" for k
  proof (cases "obj_get row k")
    case None
    then show ?thesis by (simp add: extractMetafields_cb_def)
  next
    case (Some v)
    then have "(k, v) \<in> set row" by (simp add: obj_get_def map_of_SomeD)
    with assms have "startsWith k ''metafield_'' \<longrightarrow> v = []" by auto
    with Some show ?thesis by (auto simp: extractMetafields_cb_def)
  qed
  then show ?thesis by (simp add: extractMetafields_concat)
qed

text \<open>
  C7.  A row from which no attribute-map entry is extracted is classified as skipped
  and nothing else: wherever it stands in a batch, it adds one to the skipped count,
  nothing to the success and failed counts and no detail entry, and the rows after it
  are processed from the very trace the rows before it left, so no request is sent for
  it.
\<close>

theorem skip_rule:
  assumes "extractMetafields row = []"
    and "processBatch d api t pre = (r1, t1)"
    and "processBatch d api t1 post = (r2, t2)"
  shows "processBatch d api t (pre @ row # post) =
           (\<lparr>success = success r1 + success r2,
             failed = failed r1 + failed r2,
             skipped = skipped r1 + 1 + skipped r2,
             details = details r1 @ details r2\<rparr>, t2)"
proof -
  have "processBatch d api t1 (row # post) =
          (add_results \<lparr>success = 0, failed = 0, skipped = 1, details = []\<rparr> r2, t2)"
    by (simp add: processBatch_Cons body_skip [OF assms(1)] assms(3))
  then show ?thesis
    by (simp add: processBatch_append [of d api t pre] assms(2) add_results_def)
qed

lemma update_payload_extract:
  "update_payload (extractMetafields row) = extractMetafields row"
proof -
  have "mf_type m = ''single_line_text_field''" if "m \<in> set (extractMetafields row)" for m
    using that cb_member by (auto simp: extract_member)
  then have "\<lparr>mf_namespace = mf_namespace m, mf_key = mf_key m, mf_value = mf_value m,
              mf_type = (if mf_type m = [] then ''single_line_text_field'' else mf_type m)\<rparr> = m"
    if "m \<in> set (extractMetafields row)" for m
    using that by simp
  then show ?thesis unfolding update_payload_def by (simp add: map_idI)
qed

text \<open>
  C1.  Partial failure isolation: when the mutation of a row is rejected by the API or
  fails at the transport layer, with error text \<open>msg\<close>, the row is counted as
  failed, its detail entry records every extracted entry as a failure that carries
  \<open>msg\<close>, and the rows after it are processed as usual, from the trace extended by
  the two requests of the failed row.
\<close>

theorem partial_failure_isolation:
  assumes "extractMetafields row \<noteq> []"
    and "processBatch False api t pre = (r1, t1)"
    and "productVariant api t1 (obj_get row ''variant_id'') = LookupResolved (Some pid)"
    and "pid \<noteq> []"
    and "rejection_text
           (productVariantsBulkUpdate api (t1 @ [GetVariant (obj_get row ''variant_id'')]) pid
              (obj_get row ''variant_id'') (extractMetafields row)) = Some msg"
    and "processBatch False api
           (t1 @ [GetVariant (obj_get row ''variant_id''),
                  BulkUpdate pid (obj_get row ''variant_id'') (extractMetafields row)])
           post = (r2, t2)"
  shows "processBatch False api t (pre @ row # post) =
           (\<lparr>success = success r1 + success r2,
             failed = failed r1 + 1 + failed r2,
             skipped = skipped r1 + skipped r2,
             details = details r1 @
               [\<lparr>variantId = obj_get row ''variant_id'',
                 variantTitle = obj_get row ''variant_title'',
                 metafieldResults =
                   map (\<lambda>m. \<lparr>mr_success = False, mr_metafield = m, mr_extra = Error msg\<rparr>)
                       (extractMetafields row)\<rparr>] @
               details r2\<rparr>, t2)"
proof -
  have rej: "rejection_text
      (productVariantsBulkUpdate api (t1 @ [GetVariant (obj_get row ''variant_id'')]) pid
         (obj_get row ''variant_id'') (update_payload (extractMetafields row))) = Some msg"
    unfolding update_payload_extract by (rule assms(5))
  have "processBatch False api t1 (row # post) =
          (add_results
             \<lparr>success = 0, failed = 1, skipped = 0,
               details = [\<lparr>variantId = obj_get row ''variant_id'',
                           variantTitle = obj_get row ''variant_title'',
                           metafieldResults = all_failed (extractMetafields row) msg\<rparr>]\<rparr>
             r2, t2)"
    using assms(6)
    by (simp add: processBatch_Cons body_rejected [OF assms(1,3,4) rej] update_payload_extract)
  then show ?thesis
    by (simp add: processBatch_append [of False api t pre] assms(2) add_results_def
          all_failed_def)
qed

lemmas batch_eval =
  processBatch_def processBatch_body_def updateVariantMetafields_def
  getProductIdFromVariantId_def update_payload_def all_failed_def empty_results_def
  extractMetafields_def extractMetafields_cb_def obj_keys_def obj_get_def startsWith_def
  example_row_def example_api_def example_entry_def json_array_def rejection_text_def Let_def

lemma example_extract:
  "extractMetafields (example_row vid ''true'') = [example_entry ''true'']"
  by (simp add: batch_eval)

text \<open>
  The skip rule on three rows, the second with an empty attribute cell: two successes,
  one skipped row, requests for the first and third row only.
\<close>

theorem skip_rule_witness:
  "processBatch False (example_api ''none'') []
     ([example_row ''v1'' ''true''] @ example_row ''v2'' [] # [example_row ''v3'' ''true'']) =
   (\<lparr>success = 2, failed = 0, skipped = 1,
     details =
       [\<lparr>variantId = Some ''v1'', variantTitle = Some ''Default Title'',
          metafieldResults =
            [\<lparr>mr_success = True, mr_metafield = example_entry ''true'',
               mr_extra = Response []\<rparr>]\<rparr>,
        \<lparr>variantId = Some ''v3'', variantTitle = Some ''Default Title'',
          metafieldResults =
            [\<lparr>mr_success = True, mr_metafield = example_entry ''true'',
               mr_extra = Response []\<rparr>]\<rparr>]\<rparr>,
    [GetVariant (Some ''v1''), BulkUpdate ''p1'' (Some ''v1'') [example_entry ''true''],
     GetVariant (Some ''v3''), BulkUpdate ''p1'' (Some ''v3'') [example_entry ''true'']])"
proof -
  have skip: "extractMetafields (example_row ''v2'' []) = []"
    by (simp add: batch_eval)
  have pre: "processBatch False (example_api ''none'') [] [example_row ''v1'' ''true''] =
      (\<lparr>success = 1, failed = 0, skipped = 0,
        details =
          [\<lparr>variantId = Some ''v1'', variantTitle = Some ''Default Title'',
             metafieldResults =
               [\<lparr>mr_success = True, mr_metafield = example_entry ''true'',
                  mr_extra = Response []\<rparr>]\<rparr>]\<rparr>,
       [GetVariant (Some ''v1''), BulkUpdate ''p1'' (Some ''v1'') [example_entry ''true'']])"
    by (simp add: batch_eval)
  have post: "processBatch False (example_api ''none'')
        [GetVariant (Some ''v1''), BulkUpdate ''p1'' (Some ''v1'') [example_entry ''true'']]
        [example_row ''v3'' ''true''] =
      (\<lparr>success = 1, failed = 0, skipped = 0,
        details =
          [\<lparr>variantId = Some ''v3'', variantTitle = Some ''Default Title'',
             metafieldResults =
               [\<lparr>mr_success = True, mr_metafield = example_entry ''true'',
                  mr_extra = Response []\<rparr>]\<rparr>]\<rparr>,
       [GetVariant (Some ''v1''), BulkUpdate ''p1'' (Some ''v1'') [example_entry ''true''],
        GetVariant (Some ''v3''), BulkUpdate ''p1'' (Some ''v3'') [example_entry ''true'']])"
    by (simp add: batch_eval)
  show ?thesis using skip_rule [OF skip pre post] by simp
qed

text \<open>
  The scenario of five records where the mutation of record 3 is rejected: four
  successes, one failure, records 4 and 5 are still sent, and the third detail entry
  holds the error text.
\<close>

theorem partial_failure_isolation_witness:
  "success (fst (processBatch False (example_api ''v3'') []
      ([example_row ''v1'' ''true'', example_row ''v2'' ''true''] @ example_row ''v3'' ''true'' #
       [example_row ''v4'' ''true'', example_row ''v5'' ''true'']))) = 4
   \<and> failed (fst (processBatch False (example_api ''v3'') []
      ([example_row ''v1'' ''true'', example_row ''v2'' ''true''] @ example_row ''v3'' ''true'' #
       [example_row ''v4'' ''true'', example_row ''v5'' ''true'']))) = 1
   \<and> snd (processBatch False (example_api ''v3'') []
      ([example_row ''v1'' ''true'', example_row ''v2'' ''true''] @ example_row ''v3'' ''true'' #
       [example_row ''v4'' ''true'', example_row ''v5'' ''true''])) =
     [GetVariant (Some ''v1''), BulkUpdate ''p1'' (Some ''v1'') [example_entry ''true''],
      GetVariant (Some ''v2''), BulkUpdate ''p1'' (Some ''v2'') [example_entry ''true''],
      GetVariant (Some ''v3''), BulkUpdate ''p1'' (Some ''v3'') [example_entry ''true''],
      GetVariant (Some ''v4''), BulkUpdate ''p1'' (Some ''v4'') [example_entry ''true''],
      GetVariant (Some ''v5''), BulkUpdate ''p1'' (Some ''v5'') [example_entry ''true'']]
   \<and> map metafieldResults (details (fst (processBatch False (example_api ''v3'') []
      ([example_row ''v1'' ''true'', example_row ''v2'' ''true''] @ example_row ''v3'' ''true'' #
       [example_row ''v4'' ''true'', example_row ''v5'' ''true''])))) ! 2 =
     [\<lparr>mr_success = False, mr_metafield = example_entry ''true'',
        mr_extra = Error ''GraphQL errors: [{}]''\<rparr>]"
proof -
  let ?api = "example_api ''v3''"
  let ?ok = "\<lambda>v. \<lparr>variantId = Some v, variantTitle = Some ''Default Title'',
                 metafieldResults =
                   [\<lparr>mr_success = True, mr_metafield = example_entry ''true'',
                      mr_extra = Response []\<rparr>]\<rparr>"
  let ?t1 = "[GetVariant (Some ''v1''), BulkUpdate ''p1'' (Some ''v1'') [example_entry ''true''],
              GetVariant (Some ''v2''), BulkUpdate ''p1'' (Some ''v2'') [example_entry ''true'']]"
  have vid: "obj_get (example_row ''v3'' ''true'') ''variant_id'' = Some ''v3''"
    by (simp add: batch_eval)
  have payload: "update_payload [example_entry ''true''] = [example_entry ''true'']"
    by (simp add: batch_eval)
  have ne: "extractMetafields (example_row ''v3'' ''true'') \<noteq> []"
    by (simp add: example_extract)
  have pre: "processBatch False ?api [] [example_row ''v1'' ''true'', example_row ''v2'' ''true''] =
      (\<lparr>success = 2, failed = 0, skipped = 0, details = [?ok ''v1'', ?ok ''v2'']\<rparr>, ?t1)"
    by (simp add: batch_eval)
  have lookup: "productVariant ?api ?t1 (obj_get (example_row ''v3'' ''true'') ''variant_id'') =
      LookupResolved (Some ''p1'')"
    by (simp add: example_api_def)
  have pid: "''p1'' \<noteq> []" by simp
  have rej: "rejection_text
      (productVariantsBulkUpdate ?api
         (?t1 @ [GetVariant (obj_get (example_row ''v3'' ''true'') ''variant_id'')]) ''p1''
         (obj_get (example_row ''v3'' ''true'') ''variant_id'')
         (extractMetafields (example_row ''v3'' ''true''))) =
      Some ''GraphQL errors: [{}]''"
    unfolding vid by (simp add: example_api_def rejection_text_def json_array_def)
  have post: "processBatch False ?api
      (?t1 @ [GetVariant (obj_get (example_row ''v3'' ''true'') ''variant_id''),
              BulkUpdate ''p1'' (obj_get (example_row ''v3'' ''true'') ''variant_id'')
                (extractMetafields (example_row ''v3'' ''true''))])
      [example_row ''v4'' ''true'', example_row ''v5'' ''true''] =
      (\<lparr>success = 2, failed = 0, skipped = 0, details = [?ok ''v4'', ?ok ''v5'']\<rparr>,
       ?t1 @ [GetVariant (Some ''v3''), BulkUpdate ''p1'' (Some ''v3'') [example_entry ''true''],
              GetVariant (Some ''v4''), BulkUpdate ''p1'' (Some ''v4'') [example_entry ''true''],
              GetVariant (Some ''v5''), BulkUpdate ''p1'' (Some ''v5'') [example_entry ''true'']])"
    unfolding vid example_extract by (simp add: batch_eval)
  show ?thesis
    using partial_failure_isolation [OF ne pre lookup pid rej post]
    by (simp add: example_extract)
qed

subsection \<open>The batch loop\<close>

lemma importVariants_loop_rule:
  assumes n: "0 < n"
    and step: "\<And>j s. 0 \<le> j \<Longrightarrow> j < int (length vs) \<Longrightarrow> I j s \<Longrightarrow>
                 I (j + n) (importVariants_body d n api vs j s)"
  shows "0 \<le> i \<Longrightarrow> I i st \<Longrightarrow>
         \<exists>r j. importVariants_loop d n api vs i st = Some r \<and> int (length vs) \<le> j \<and> I j r"
proof (induction "nat (int (length vs) - i)" arbitrary: i st rule: less_induct)
  case less
  show ?case
  proof (cases "i < int (length vs)")
    case False
    then have "importVariants_loop d n api vs i st = Some st"
      by (subst importVariants_loop.simps) simp
    moreover have "int (length vs) \<le> i" using False by simp
    ultimately show ?thesis using less.prems(2) by blast
  next
    case True
    have m: "nat (int (length vs) - (i + n)) < nat (int (length vs) - i)"
      using True n by linarith
    have i': "0 \<le> i + n" using less.prems(1) n by simp
    have I': "I (i + n) (importVariants_body d n api vs i st)"
      using step [OF less.prems(1) True less.prems(2)] .
    have "importVariants_loop d n api vs i st =
            importVariants_loop d n api vs (i + n) (importVariants_body d n api vs i st)"
      using True by (subst importVariants_loop.simps) simp
    with less.hyps [OF m i' I'] show ?thesis by simp
  qed
qed

lemma js_slice_batch:
  assumes "0 \<le> j" and "j < int (length vs)" and "0 < n"
  shows "js_slice vs j (j + n) = take (nat n) (drop (nat j) vs)"
proof -
  have "js_slice vs j (j + n) = take (nat (min (j + n) (int (length vs)) - j)) (drop (nat j) vs)"
    using assms by (simp add: js_slice_def Let_def min_def)
  also have "\<dots> = take (nat n) (drop (nat j) vs)"
  proof (cases "j + n \<le> int (length vs)")
    case True
    then show ?thesis by (simp add: min_def)
  next
    case False
    then have "length (drop (nat j) vs) \<le> nat n" "length (drop (nat j) vs) \<le> nat (int (length vs) - j)"
      using assms by auto
    then show ?thesis using False by (simp add: min_def)
  qed
  finally show ?thesis .
qed

lemma take_next_batch:
  assumes "0 \<le> j" and "0 < n"
  shows "take (nat (j + n)) vs = take (nat j) vs @ take (nat n) (drop (nat j) vs)"
  using assms by (simp add: nat_add_distrib take_add)

lemma run_summary_batch: "run_summary d t rows (processBatch d api t rows)"
  using batch_summary [of d api t rows]
  by (cases "processBatch d api t rows") (simp add: run_summary_def)

lemma run_summary_step:
  assumes "run_summary d t xs st"
  shows "run_summary d t (xs @ ys)
           (case processBatch d api (snd st) ys of
              (br, t1) \<Rightarrow> (add_results (fst st) br, if c \<and> \<not> d then t1 @ [Sleep 1000] else t1))"
proof -
  obtain br t1 where p: "processBatch d api (snd st) ys = (br, t1)"
    by (cases "processBatch d api (snd st) ys")
  from batch_summary [OF p] have B: "run_summary d (snd st) ys (br, t1)"
    by (simp add: run_summary_def)
  from assms obtain evs where evs: "snd st = t @ evs" "list_all nonempty_write evs"
    by (auto simp: run_summary_def)
  from B obtain evs1 where evs1: "t1 = snd st @ evs1" "list_all nonempty_write evs1"
    by (auto simp: run_summary_def)
  have tr: "\<exists>e. (if c \<and> \<not> d then t1 @ [Sleep 1000] else t1) = t @ e \<and> list_all nonempty_write e"
    using evs evs1 by auto
  have dry: "d \<longrightarrow> t1 = t \<and> failed (add_results (fst st) br) = 0"
    using assms B by (auto simp: run_summary_def add_results_def)
  show ?thesis
    using assms B tr dry unfolding p
    by (simp add: run_summary_def add_results_def)
qed

lemma run_summary_loop:
  assumes "0 < n"
  shows "\<exists>r. importVariants_loop d n api vs 0 (empty_results, t) = Some r \<and> run_summary d t vs r"
proof -
  let ?I = "\<lambda>j s. run_summary d t (take (nat j) vs) s"
  have step: "?I (j + n) (importVariants_body d n api vs j s)"
    if "0 \<le> j" "j < int (length vs)" "?I j s" for j s
    unfolding importVariants_body_def js_slice_batch [OF that(1,2) assms]
      take_next_batch [OF that(1) assms]
    by (rule run_summary_step [OF that(3)])
  have init: "?I 0 (empty_results, t)"
    by (simp add: run_summary_def empty_results_def)
  from importVariants_loop_rule [where I = ?I, OF assms step _ init]
  obtain r j where r: "importVariants_loop d n api vs 0 (empty_results, t) = Some r"
    and j: "int (length vs) \<le> j" and I: "?I j r"
    by auto
  from j have "take (nat j) vs = vs" by simp
  with r I show ?thesis by simp
qed

subsection \<open>Whole runs\<close>

lemma importVariants_run:
  assumes "parseCSV content = Inr (variants, warnings)" and "batchSize cfg = Some n" and "0 < n"
  shows "\<exists>r. importVariants cfg api t content = Some (Inr r)
             \<and> run_summary (dryRun cfg) t variants r"
  using run_summary_loop [OF assms(3), of "dryRun cfg" api variants t] assms(1,2)
  by (auto simp: importVariants_def)

lemma lookup_ids_append: "lookup_ids (xs @ ys) = lookup_ids xs @ lookup_ids ys"
  by (induction xs rule: lookup_ids.induct) simp_all

lemma body_live:
  assumes "extractMetafields v \<noteq> []"
  shows "processBatch_body False api (empty_results, t) v =
     (case found_product (productVariant api t (obj_get v ''variant_id'')) of
        None \<Rightarrow>
          (\<lparr>success = 0, failed = 1, skipped = 0,
            details =
              [\<lparr>variantId = obj_get v ''variant_id'',
                variantTitle = obj_get v ''variant_title'',
                metafieldResults =
                  map (\<lambda>m. \<lparr>mr_success = False, mr_metafield = m,
                             mr_extra = Error (''Could not find product for variant '' @
                                               template_text (obj_get v ''variant_id''))\<rparr>)
                      (extractMetafields v)\<rparr>]\<rparr>,
           t @ [GetVariant (obj_get v ''variant_id'')])
      | Some pid \<Rightarrow>
          (case rejection_text
                  (productVariantsBulkUpdate api (t @ [GetVariant (obj_get v ''variant_id'')]) pid
                     (obj_get v ''variant_id'') (extractMetafields v)) of
             Some msg \<Rightarrow>
               (\<lparr>success = 0, failed = 1, skipped = 0,
                 details =
                   [\<lparr>variantId = obj_get v ''variant_id'',
                     variantTitle = obj_get v ''variant_title'',
                     metafieldResults =
                       map (\<lambda>m. \<lparr>mr_success = False, mr_metafield = m, mr_extra = Error msg\<rparr>)
                           (extractMetafields v)\<rparr>]\<rparr>,
                t @ [GetVariant (obj_get v ''variant_id''),
                     BulkUpdate pid (obj_get v ''variant_id'') (extractMetafields v)])
           | None \<Rightarrow>
               (\<lparr>success = 1, failed = 0, skipped = 0,
                 details =
                   [\<lparr>variantId = obj_get v ''variant_id'',
                     variantTitle = obj_get v ''variant_title'',
                     metafieldResults =
                       map (\<lambda>m. \<lparr>mr_success = True, mr_metafield = m, mr_extra = Response []\<rparr>)
                           (extractMetafields v)\<rparr>]\<rparr>,
                t @ [GetVariant (obj_get v ''variant_id''),
                     BulkUpdate pid (obj_get v ''variant_id'') (extractMetafields v)])))"
proof -
  let ?ms = "extractMetafields v"
  have f: "filter (\<lambda>r. \<not> mr_success r) (all_failed ?ms msg) \<noteq> []" for msg
  proof -
    have "length (filter (\<lambda>r. \<not> mr_success r) (all_failed ?ms msg)) \<noteq> 0"
      unfolding all_failed_count using assms by simp
    then show ?thesis by simp
  qed
  have g: "filter (\<lambda>r. \<not> mr_success r)
             (map (\<lambda>m. \<lparr>mr_success = True, mr_metafield = m, mr_extra = x\<rparr>) ?ms) = []" for x
    by (simp add: filter_empty_conv)
  show ?thesis
    using assms f
    by (simp add: processBatch_body_def updateVariantMetafields_def
          getProductIdFromVariantId_def found_product_def rejection_text_def Let_def
          update_payload_extract empty_results_def g all_failed_def
          split: lookup_reply.splits option.splits update_reply.splits)
qed

lemma body_dry:
  assumes "extractMetafields v \<noteq> []"
  shows "processBatch_body True api (empty_results, t) v =
           (\<lparr>success = 1, failed = 0, skipped = 0, details = [dry_detail v]\<rparr>, t)"
  using assms
  by (simp add: processBatch_body_def update_dry Let_def empty_results_def dry_detail_def
        filter_empty_conv)

lemma dry_result_Cons:
  "dry_result (v # vs) =
     (if is_skipped v
      then add_results \<lparr>success = 0, failed = 0, skipped = 1, details = []\<rparr> (dry_result vs)
      else add_results \<lparr>success = 1, failed = 0, skipped = 0, details = [dry_detail v]\<rparr>
             (dry_result vs))"
  by (simp add: dry_result_def add_results_def)

lemma dry_result_append:
  "dry_result (xs @ ys) = add_results (dry_result xs) (dry_result ys)"
  by (simp add: dry_result_def add_results_def)

lemma processBatch_dry: "processBatch True api t rows = (dry_result rows, t)"
proof (induction rows)
  case Nil
  then show ?case by (simp add: processBatch_Nil dry_result_def empty_results_def)
next
  case (Cons v vs)
  show ?case
  proof (cases "is_skipped v")
    case True
    then have "extractMetafields v = []" by (simp add: is_skipped_def)
    then show ?thesis
      using True by (simp add: processBatch_Cons body_skip Cons dry_result_Cons)
  next
    case False
    then have "extractMetafields v \<noteq> []" by (simp add: is_skipped_def)
    then show ?thesis
      using False by (simp add: processBatch_Cons body_dry Cons dry_result_Cons)
  qed
qed

lemma dry_loop:
  assumes "0 < n"
  shows "importVariants_loop True n api rows 0 (empty_results, t) = Some (dry_result rows, t)"
proof -
  let ?I = "\<lambda>j s. s = (dry_result (take (nat j) rows), t)"
  have step: "?I (j + n) (importVariants_body True n api rows j s)"
    if "0 \<le> j" "j < int (length rows)" "?I j s" for j s
  proof -
    have "importVariants_body True n api rows j s =
            (add_results (dry_result (take (nat j) rows))
               (dry_result (take (nat n) (drop (nat j) rows))), t)"
      unfolding importVariants_body_def js_slice_batch [OF that(1,2) assms] that(3)
      by (simp add: processBatch_dry)
    then show ?thesis
      unfolding take_next_batch [OF that(1) assms] dry_result_append by simp
  qed
  have init: "?I 0 (empty_results, t)"
    by (simp add: dry_result_def empty_results_def)
  have z: "(0::int) \<le> 0" by simp
  from importVariants_loop_rule [where I = ?I, OF assms step z init]
  obtain r j where r: "importVariants_loop True n api rows 0 (empty_results, t) = Some r"
    and j: "int (length rows) \<le> j" and I: "r = (dry_result (take (nat j) rows), t)"
    by blast
  from j have "take (nat j) rows = rows" by simp
  with I have "r = (dry_result rows, t)" by simp
  with r show ?thesis by simp
qed

lemma body_lookups:
  "\<exists>evs. snd (processBatch_body False api (res, t) v) = t @ evs
         \<and> lookup_ids evs = (if is_skipped v then [] else [obj_get v ''variant_id''])"
proof -
  have s: "snd (processBatch_body False api (res, t) v) =
           snd (processBatch_body False api (empty_results, t) v)"
    using body_additive [of False api res t v] by simp
  show ?thesis
  proof (cases "is_skipped v")
    case True
    then have "extractMetafields v = []" by (simp add: is_skipped_def)
    then show ?thesis using True unfolding s by (simp add: body_skip)
  next
    case False
    then have "extractMetafields v \<noteq> []" by (simp add: is_skipped_def)
    then show ?thesis using False unfolding s
      by (simp add: body_live split: option.splits)
  qed
qed

lemma batch_lookups:
  "\<exists>evs. snd (processBatch False api t rows) = t @ evs
         \<and> lookup_ids evs =
             map (\<lambda>v. obj_get v ''variant_id'') (filter (\<lambda>v. \<not> is_skipped v) rows)"
proof (induction rows rule: rev_induct)
  case Nil
  then show ?case by (simp add: processBatch_Nil)
next
  case (snoc v vs)
  obtain r1 t1 where p: "processBatch False api t vs = (r1, t1)"
    by (cases "processBatch False api t vs")
  from snoc p obtain evs where evs: "t1 = t @ evs"
    "lookup_ids evs = map (\<lambda>v. obj_get v ''variant_id'') (filter (\<lambda>v. \<not> is_skipped v) vs)"
    by auto
  from body_lookups [of api r1 t1 v] obtain evs1
    where evs1: "snd (processBatch_body False api (r1, t1) v) = t1 @ evs1"
      "lookup_ids evs1 = (if is_skipped v then [] else [obj_get v ''variant_id''])"
    by blast
  have "snd (processBatch False api t (vs @ [v])) = t @ (evs @ evs1)"
    using evs(1) evs1(1) by (simp add: processBatch_snoc p)
  moreover have "lookup_ids (evs @ evs1) =
      map (\<lambda>v. obj_get v ''variant_id'') (filter (\<lambda>v. \<not> is_skipped v) (vs @ [v]))"
    using evs(2) evs1(2) by (simp add: lookup_ids_append)
  ultimately show ?case by blast
qed

lemma live_summary_step:
  assumes "live_summary t xs st"
  shows "live_summary t (xs @ ys)
           (case processBatch False api (snd st) ys of
              (br, t1) \<Rightarrow> (add_results (fst st) br, if c \<and> \<not> False then t1 @ [Sleep 1000] else t1))"
proof -
  obtain br t1 where p: "processBatch False api (snd st) ys = (br, t1)"
    by (cases "processBatch False api (snd st) ys")
  from assms obtain evs where evs: "snd st = t @ evs"
    "lookup_ids evs = map (\<lambda>v. obj_get v ''variant_id'') (filter (\<lambda>v. \<not> is_skipped v) xs)"
    by (auto simp: live_summary_def)
  from batch_lookups [of api "snd st" ys] p obtain evs1 where evs1: "t1 = snd st @ evs1"
    "lookup_ids evs1 = map (\<lambda>v. obj_get v ''variant_id'') (filter (\<lambda>v. \<not> is_skipped v) ys)"
    by auto
  have rs: "run_summary False t (xs @ ys)
              (case processBatch False api (snd st) ys of
                 (br, t1) \<Rightarrow> (add_results (fst st) br,
                               if c \<and> \<not> False then t1 @ [Sleep 1000] else t1))"
    using assms by (intro run_summary_step) (simp add: live_summary_def)
  have "\<exists>e. (if c then t1 @ [Sleep 1000] else t1) = t @ e
          \<and> lookup_ids e =
              map (\<lambda>v. obj_get v ''variant_id'') (filter (\<lambda>v. \<not> is_skipped v) (xs @ ys))"
  proof (cases c)
    case True
    have "t1 @ [Sleep 1000] = t @ (evs @ evs1 @ [Sleep 1000])" using evs(1) evs1(1) by simp
    moreover have "lookup_ids (evs @ evs1 @ [Sleep 1000]) =
        map (\<lambda>v. obj_get v ''variant_id'') (filter (\<lambda>v. \<not> is_skipped v) (xs @ ys))"
      using evs(2) evs1(2) by (simp add: lookup_ids_append)
    ultimately show ?thesis using True by (simp only: if_True) blast
  next
    case False
    have "t1 = t @ (evs @ evs1)" using evs(1) evs1(1) by simp
    moreover have "lookup_ids (evs @ evs1) =
        map (\<lambda>v. obj_get v ''variant_id'') (filter (\<lambda>v. \<not> is_skipped v) (xs @ ys))"
      using evs(2) evs1(2) by (simp add: lookup_ids_append)
    ultimately show ?thesis using False by (simp only: if_False) blast
  qed
  then show ?thesis using rs unfolding p by (simp add: live_summary_def)
qed

lemma live_loop:
  assumes "0 < n"
  shows "\<exists>r. importVariants_loop False n api rows 0 (empty_results, t) = Some r
             \<and> live_summary t rows r"
proof -
  let ?I = "\<lambda>j s. live_summary t (take (nat j) rows) s"
  have step: "?I (j + n) (importVariants_body False n api rows j s)"
    if "0 \<le> j" "j < int (length rows)" "?I j s" for j s
    unfolding importVariants_body_def js_slice_batch [OF that(1,2) assms]
      take_next_batch [OF that(1) assms]
    by (rule live_summary_step [OF that(3)])
  have init: "?I 0 (empty_results, t)"
    by (simp add: live_summary_def run_summary_def empty_results_def)
  have z: "(0::int) \<le> 0" by simp
  from importVariants_loop_rule [where I = ?I, OF assms step z init]
  obtain r j where r: "importVariants_loop False n api rows 0 (empty_results, t) = Some r"
    and j: "int (length rows) \<le> j" and I: "live_summary t (take (nat j) rows) r"
    by blast
  from j have "take (nat j) rows = rows" by simp
  with r I show ?thesis by simp
qed

text \<open>
  C3 (amended).  For every row set and every positive batch size, a dry run and a live
  run both return and make the same extraction decisions: they skip the same rows and
  record, for the same remaining rows in the same order, the same identifiers, titles
  and extracted entries.  The dry run sends no request at all (its trace is unchanged)
  and reports every row it does not skip as a success, each entry marked
  \<open>dry-run\<close>.  The live run alone sends, for every row it does not skip, the variant
  query; when the query fails or finds no product it fails the row with
  \<open>Could not find product for variant ...\<close> and sends no mutation; otherwise it sends
  the mutation with the extracted entries, fails the row with the captured error text
  when the mutation is rejected and counts it as a success when it is accepted.  So the
  two modes differ in the variant query, its check and the mutation, not in the
  mutation call only.
\<close>

theorem dry_run_equivalence:
  assumes "0 < n"
  shows "importVariants_loop True n api rows 0 (empty_results, t) =
           Some (\<lparr>success = length (filter (\<lambda>v. \<not> is_skipped v) rows),
                  failed = 0,
                  skipped = length (filter is_skipped rows),
                  details =
                    map (\<lambda>v. \<lparr>variantId = obj_get v ''variant_id'',
                               variantTitle = obj_get v ''variant_title'',
                               metafieldResults =
                                 map (\<lambda>m. \<lparr>mr_success = True, mr_metafield = m,
                                            mr_extra = Action ''dry-run''\<rparr>)
                                     (extractMetafields v)\<rparr>)
                        (filter (\<lambda>v. \<not> is_skipped v) rows)\<rparr>, t)
       \<and> (\<exists>rl evs.
             importVariants_loop False n api rows 0 (empty_results, t) = Some (rl, t @ evs)
           \<and> skipped rl = length (filter is_skipped rows)
           \<and> map decision (details rl) = map row_decision (filter (\<lambda>v. \<not> is_skipped v) rows)
           \<and> success rl + failed rl = length (filter (\<lambda>v. \<not> is_skipped v) rows)
           \<and> lookup_ids evs =
               map (\<lambda>v. obj_get v ''variant_id'') (filter (\<lambda>v. \<not> is_skipped v) rows))
       \<and> processBatch False api t [] =
           (\<lparr>success = 0, failed = 0, skipped = 0, details = []\<rparr>, t)
       \<and> processBatch False api t (row # rest) =
           (if extractMetafields row = [] then
              (case processBatch False api t rest of
                 (r, t') \<Rightarrow>
                   (\<lparr>success = success r, failed = failed r, skipped = skipped r + 1,
                     details = details r\<rparr>, t'))
            else
              (case found_product (productVariant api t (obj_get row ''variant_id'')) of
                 None \<Rightarrow>
                   (case processBatch False api (t @ [GetVariant (obj_get row ''variant_id'')])
                           rest of
                      (r, t') \<Rightarrow>
                        (\<lparr>success = success r, failed = failed r + 1, skipped = skipped r,
                          details =
                            \<lparr>variantId = obj_get row ''variant_id'',
                              variantTitle = obj_get row ''variant_title'',
                              metafieldResults =
                                map (\<lambda>m. \<lparr>mr_success = False, mr_metafield = m,
                                           mr_extra =
                                             Error (''Could not find product for variant '' @
                                                    template_text (obj_get row ''variant_id''))\<rparr>)
                                    (extractMetafields row)\<rparr> # details r\<rparr>, t'))
               | Some pid \<Rightarrow>
                   (case processBatch False api
                           (t @ [GetVariant (obj_get row ''variant_id''),
                                 BulkUpdate pid (obj_get row ''variant_id'')
                                   (extractMetafields row)]) rest of
                      (r, t') \<Rightarrow>
                        (case rejection_text
                                (productVariantsBulkUpdate api
                                   (t @ [GetVariant (obj_get row ''variant_id'')]) pid
                                   (obj_get row ''variant_id'') (extractMetafields row)) of
                           Some msg \<Rightarrow>
                             (\<lparr>success = success r, failed = failed r + 1,
                               skipped = skipped r,
                               details =
                                 \<lparr>variantId = obj_get row ''variant_id'',
                                   variantTitle = obj_get row ''variant_title'',
                                   metafieldResults =
                                     map (\<lambda>m. \<lparr>mr_success = False, mr_metafield = m,
                                                mr_extra = Error msg\<rparr>)
                                         (extractMetafields row)\<rparr> # details r\<rparr>, t')
                         | None \<Rightarrow>
                             (\<lparr>success = success r + 1, failed = failed r,
                               skipped = skipped r,
                               details =
                                 \<lparr>variantId = obj_get row ''variant_id'',
                                   variantTitle = obj_get row ''variant_title'',
                                   metafieldResults =
                                     map (\<lambda>m. \<lparr>mr_success = True, mr_metafield = m,
                                                mr_extra = Response []\<rparr>)
                                         (extractMetafields row)\<rparr> # details r\<rparr>, t')))))"
proof (intro conjI)
  show "importVariants_loop True n api rows 0 (empty_results, t) =
           Some (\<lparr>success = length (filter (\<lambda>v. \<not> is_skipped v) rows),
                  failed = 0,
                  skipped = length (filter is_skipped rows),
                  details =
                    map (\<lambda>v. \<lparr>variantId = obj_get v ''variant_id'',
                               variantTitle = obj_get v ''variant_title'',
                               metafieldResults =
                                 map (\<lambda>m. \<lparr>mr_success = True, mr_metafield = m,
                                            mr_extra = Action ''dry-run''\<rparr>)
                                     (extractMetafields v)\<rparr>)
                        (filter (\<lambda>v. \<not> is_skipped v) rows)\<rparr>, t)"
    using dry_loop [OF assms, of api rows t] by (simp add: dry_result_def dry_detail_def)
  show "\<exists>rl evs.
             importVariants_loop False n api rows 0 (empty_results, t) = Some (rl, t @ evs)
           \<and> skipped rl = length (filter is_skipped rows)
           \<and> map decision (details rl) = map row_decision (filter (\<lambda>v. \<not> is_skipped v) rows)
           \<and> success rl + failed rl = length (filter (\<lambda>v. \<not> is_skipped v) rows)
           \<and> lookup_ids evs =
               map (\<lambda>v. obj_get v ''variant_id'') (filter (\<lambda>v. \<not> is_skipped v) rows)"
  proof -
    from live_loop [OF assms, of api rows t]
    obtain rl tl where r: "importVariants_loop False n api rows 0 (empty_results, t) = Some (rl, tl)"
      and s: "live_summary t rows (rl, tl)"
      by auto
    from s obtain evs where "tl = t @ evs"
      "lookup_ids evs =
         map (\<lambda>v. obj_get v ''variant_id'') (filter (\<lambda>v. \<not> is_skipped v) rows)"
      by (auto simp: live_summary_def)
    with r s show ?thesis by (auto simp: live_summary_def run_summary_def)
  qed
  show "processBatch False api t [] =
           (\<lparr>success = 0, failed = 0, skipped = 0, details = []\<rparr>, t)"
    by (simp add: processBatch_Nil empty_results_def)
  show "processBatch False api t (row # rest) = (if extractMetafields row = [] then
              (case processBatch False api t rest of
                 (r, t') \<Rightarrow>
                   (\<lparr>success = success r, failed = failed r, skipped = skipped r + 1,
                     details = details r\<rparr>, t'))
            else
              (case found_product (productVariant api t (obj_get row ''variant_id'')) of
                 None \<Rightarrow>
                   (case processBatch False api (t @ [GetVariant (obj_get row ''variant_id'')])
                           rest of
                      (r, t') \<Rightarrow>
                        (\<lparr>success = success r, failed = failed r + 1, skipped = skipped r,
                          details =
                            \<lparr>variantId = obj_get row ''variant_id'',
                              variantTitle = obj_get row ''variant_title'',
                              metafieldResults =
                                map (\<lambda>m. \<lparr>mr_success = False, mr_metafield = m,
                                           mr_extra =
                                             Error (''Could not find product for variant '' @
                                                    template_text (obj_get row ''variant_id''))\<rparr>)
                                    (extractMetafields row)\<rparr> # details r\<rparr>, t'))
               | Some pid \<Rightarrow>
                   (case processBatch False api
                           (t @ [GetVariant (obj_get row ''variant_id''),
                                 BulkUpdate pid (obj_get row ''variant_id'')
                                   (extractMetafields row)]) rest of
                      (r, t') \<Rightarrow>
                        (case rejection_text
                                (productVariantsBulkUpdate api
                                   (t @ [GetVariant (obj_get row ''variant_id'')]) pid
                                   (obj_get row ''variant_id'') (extractMetafields row)) of
                           Some msg \<Rightarrow>
                             (\<lparr>success = success r, failed = failed r + 1,
                               skipped = skipped r,
                               details =
                                 \<lparr>variantId = obj_get row ''variant_id'',
                                   variantTitle = obj_get row ''variant_title'',
                                   metafieldResults =
                                     map (\<lambda>m. \<lparr>mr_success = False, mr_metafield = m,
                                                mr_extra = Error msg\<rparr>)
                                         (extractMetafields row)\<rparr> # details r\<rparr>, t')
                         | None \<Rightarrow>
                             (\<lparr>success = success r + 1, failed = failed r,
                               skipped = skipped r,
                               details =
                                 \<lparr>variantId = obj_get row ''variant_id'',
                                   variantTitle = obj_get row ''variant_title'',
                                   metafieldResults =
                                     map (\<lambda>m. \<lparr>mr_success = True, mr_metafield = m,
                                                mr_extra = Response []\<rparr>)
                                         (extractMetafields row)\<rparr> # details r\<rparr>, t')))))"
  proof (cases "extractMetafields row = []")
    case True
    then show ?thesis
      by (simp add: processBatch_Cons body_skip add_results_def split: prod.splits)
  next
    case False
    let ?ms = "extractMetafields row"
    let ?vid = "obj_get row ''variant_id''"
    let ?title = "obj_get row ''variant_title''"
    have f: "filter (\<lambda>r. \<not> mr_success r) (all_failed ?ms msg) \<noteq> []" for msg
      using False by (cases ?ms) (simp_all add: all_failed_def)
    have g: "filter (\<lambda>r. \<not> mr_success r)
               (map (\<lambda>m. \<lparr>mr_success = True, mr_metafield = m, mr_extra = x\<rparr>) ?ms) = []"
      for x
      by (simp add: filter_empty_conv)
    have body: "processBatch_body False api (empty_results, t) row =
      (case found_product (productVariant api t ?vid) of
         None \<Rightarrow>
           (\<lparr>success = 0, failed = 1, skipped = 0,
             details =
               [\<lparr>variantId = ?vid, variantTitle = ?title,
                 metafieldResults =
                   map (\<lambda>m. \<lparr>mr_success = False, mr_metafield = m,
                              mr_extra = Error (''Could not find product for variant '' @
                                                template_text ?vid)\<rparr>) ?ms\<rparr>]\<rparr>,
            t @ [GetVariant ?vid])
       | Some pid \<Rightarrow>
           (case rejection_text
                   (productVariantsBulkUpdate api (t @ [GetVariant ?vid]) pid ?vid ?ms) of
              Some msg \<Rightarrow>
                (\<lparr>success = 0, failed = 1, skipped = 0,
                  details =
                    [\<lparr>variantId = ?vid, variantTitle = ?title,
                      metafieldResults =
                        map (\<lambda>m. \<lparr>mr_success = False, mr_metafield = m,
                                   mr_extra = Error msg\<rparr>) ?ms\<rparr>]\<rparr>,
                 t @ [GetVariant ?vid, BulkUpdate pid ?vid ?ms])
            | None \<Rightarrow>
                (\<lparr>success = 1, failed = 0, skipped = 0,
                  details =
                    [\<lparr>variantId = ?vid, variantTitle = ?title,
                      metafieldResults =
                        map (\<lambda>m. \<lparr>mr_success = True, mr_metafield = m,
                                   mr_extra = Response []\<rparr>) ?ms\<rparr>]\<rparr>,
                 t @ [GetVariant ?vid, BulkUpdate pid ?vid ?ms])))"
      using False f
      by (simp add: processBatch_body_def updateVariantMetafields_def
            getProductIdFromVariantId_def found_product_def rejection_text_def Let_def
            update_payload_extract empty_results_def g all_failed_def
            split: lookup_reply.splits option.splits update_reply.splits)
    show ?thesis
      using False
      by (simp add: processBatch_Cons body add_results_def
            split: prod.splits option.splits)
  qed
qed

lemmas csv_eval =
  parseCSV_def parseCSVLine_def make_row_def obj_put_def array_index_def is_digit_def
  js_index_def or_empty_def js_trim_def is_ws_def

lemma example_csv_rows:
  "parseCSV example_csv =
     Inr ([[(''variant_id'', ''v1''), (''variant_title'', ''Small''),
            (''metafield_custom_popular'', ''true'')],
           [(''variant_id'', ''v2''), (''variant_title'', ''Large''),
            (''metafield_custom_popular'', [])]], [])"
  by (simp add: example_csv_def csv_eval)

text \<open>
  Dry and live run on two rows, one of them skipped, and the live path of the first
  row.
\<close>

theorem dry_run_equivalence_witness:
  "importVariants_loop True 10 (example_api ''none'')
       [example_row ''v1'' ''true'', example_row ''v2'' []] 0 (empty_results, []) =
     Some (\<lparr>success = 1, failed = 0, skipped = 1,
            details =
              [\<lparr>variantId = Some ''v1'', variantTitle = Some ''Default Title'',
                 metafieldResults =
                   [\<lparr>mr_success = True, mr_metafield = example_entry ''true'',
                      mr_extra = Action ''dry-run''\<rparr>]\<rparr>]\<rparr>, [])
   \<and> (\<exists>rl evs.
         importVariants_loop False 10 (example_api ''none'')
           [example_row ''v1'' ''true'', example_row ''v2'' []] 0 (empty_results, []) =
           Some (rl, evs)
       \<and> skipped rl = 1
       \<and> map decision (details rl) =
           [(Some ''v1'', Some ''Default Title'', [example_entry ''true''])]
       \<and> success rl + failed rl = 1
       \<and> lookup_ids evs = [Some ''v1''])
   \<and> processBatch False (example_api ''none'') [] (example_row ''v1'' ''true'' # []) =
       (\<lparr>success = 1, failed = 0, skipped = 0,
         details =
           [\<lparr>variantId = Some ''v1'', variantTitle = Some ''Default Title'',
              metafieldResults =
                [\<lparr>mr_success = True, mr_metafield = example_entry ''true'',
                   mr_extra = Response []\<rparr>]\<rparr>]\<rparr>,
        [GetVariant (Some ''v1''), BulkUpdate ''p1'' (Some ''v1'') [example_entry ''true'']])"
proof -
  have n: "(0::int) < 10" by simp
  have e1: "extractMetafields (example_row ''v1'' ''true'') = [example_entry ''true'']"
    by (simp add: batch_eval)
  have e2: "extractMetafields (example_row ''v2'' []) = []"
    by (simp add: batch_eval)
  have g: "obj_get (example_row ''v1'' ''true'') ''variant_id'' = Some ''v1''"
    "obj_get (example_row ''v1'' ''true'') ''variant_title'' = Some ''Default Title''"
    by (simp_all add: example_row_def obj_get_def)
  have d1: "row_decision (example_row ''v1'' ''true'') =
              (Some ''v1'', Some ''Default Title'', [example_entry ''true''])"
    unfolding row_decision_def e1 g by simp
  have f: "found_product (productVariant (example_api ''none'') [] (Some ''v1'')) = Some ''p1''"
    by (simp add: found_product_def example_api_def)
  have r: "rejection_text
             (productVariantsBulkUpdate (example_api ''none'') [GetVariant (Some ''v1'')] ''p1''
                (Some ''v1'') [example_entry ''true'']) = None"
    by (simp add: rejection_text_def example_api_def)
  have b: "processBatch False (example_api ''none'')
             [GetVariant (Some ''v1''), BulkUpdate ''p1'' (Some ''v1'') [example_entry ''true'']] [] =
           (\<lparr>success = 0, failed = 0, skipped = 0, details = []\<rparr>,
            [GetVariant (Some ''v1''), BulkUpdate ''p1'' (Some ''v1'') [example_entry ''true'']])"
    by (simp add: processBatch_Nil empty_results_def)
  have run: "processBatch False (example_api ''none'') [] [example_row ''v1'' ''true''] =
       (\<lparr>success = 1, failed = 0, skipped = 0,
         details =
           [\<lparr>variantId = Some ''v1'', variantTitle = Some ''Default Title'',
              metafieldResults =
                [\<lparr>mr_success = True, mr_metafield = example_entry ''true'',
                   mr_extra = Response []\<rparr>]\<rparr>]\<rparr>,
        [GetVariant (Some ''v1''), BulkUpdate ''p1'' (Some ''v1'') [example_entry ''true'']])"
    by (simp add: batch_eval)
  show ?thesis
    using dry_run_equivalence [OF n, of "example_api ''none''"
        "[example_row ''v1'' ''true'', example_row ''v2'' []]" "[]"
        "example_row ''v1'' ''true''" "[]"] run
    by (simp add: is_skipped_def e1 e2 d1 g f r b)
qed

text \<open>
  C3 as stated fails: the two modes do not differ in the final mutation call only.
  For a variant the API does not know, the live run sends the variant query, fails the
  row on its answer and sends no mutation, while the dry run reports success.
\<close>

theorem dry_run_equivalence_counterexample:
  "processBatch True unknown_variant_api [] [example_row ''v1'' ''true''] =
     (\<lparr>success = 1, failed = 0, skipped = 0,
       details =
         [\<lparr>variantId = Some ''v1'', variantTitle = Some ''Default Title'',
            metafieldResults =
              [\<lparr>mr_success = True, mr_metafield = example_entry ''true'',
                 mr_extra = Action ''dry-run''\<rparr>]\<rparr>]\<rparr>, [])
   \<and> processBatch False unknown_variant_api [] [example_row ''v1'' ''true''] =
     (\<lparr>success = 0, failed = 1, skipped = 0,
       details =
         [\<lparr>variantId = Some ''v1'', variantTitle = Some ''Default Title'',
            metafieldResults =
              [\<lparr>mr_success = False, mr_metafield = example_entry ''true'',
                 mr_extra = Error ''Could not find product for variant v1''\<rparr>]\<rparr>]\<rparr>,
      [GetVariant (Some ''v1'')])"
  by (simp add: batch_eval unknown_variant_api_def template_text_def)

text \<open>
  C9 (amended).  Every import run with a parsable file and a positive batch size
  returns an aggregate whose counts success, failed and skipped add up to the number
  of rows; the detail list holds one entry, in row order, for every row that was not
  skipped, and none for a skipped row.
\<close>

theorem result_aggregate:
  assumes "parseCSV content = Inr (variants, warnings)" and "batchSize cfg = Some n" and "0 < n"
  shows "\<exists>res t'. importVariants cfg api t content = Some (Inr (res, t'))
         \<and> success res + failed res + skipped res = length variants
         \<and> skipped res = length (filter is_skipped variants)
         \<and> length (details res) = success res + failed res
         \<and> map decision (details res) =
             map row_decision (filter (\<lambda>v. \<not> is_skipped v) variants)"
proof -
  from importVariants_run [OF assms, of api t]
  obtain res t' where r: "importVariants cfg api t content = Some (Inr (res, t'))"
    and s: "run_summary (dryRun cfg) t variants (res, t')"
    by auto
  have "length (filter is_skipped variants) + length (filter (\<lambda>v. \<not> is_skipped v) variants)
          = length variants"
    using sum_length_filter_compl [of is_skipped variants] by simp
  with r s show ?thesis by (simp add: run_summary_def)
qed

text \<open>
  The aggregate of a dry run over the example file.
\<close>

theorem result_aggregate_witness:
  "\<exists>res t'. importVariants \<lparr>dryRun = True, batchSize = Some 10\<rparr> (example_api ''none'') []
                example_csv = Some (Inr (res, t'))
     \<and> success res + failed res + skipped res = 2
     \<and> skipped res = 1
     \<and> length (details res) = success res + failed res
     \<and> map decision (details res) = [(Some ''v1'', Some ''Small'', [example_entry ''true''])]"
proof -
  have n: "(0::int) < 10" by simp
  have b: "batchSize \<lparr>dryRun = True, batchSize = Some 10\<rparr> = Some 10" by simp
  have e1: "extractMetafields [(''variant_id'', ''v1''), (''variant_title'', ''Small''),
            (''metafield_custom_popular'', ''true'')] = [example_entry ''true'']"
    by (simp add: batch_eval)
  have e2: "extractMetafields [(''variant_id'', ''v2''), (''variant_title'', ''Large''),
            (''metafield_custom_popular'', [])] = []"
    by (simp add: batch_eval)
  show ?thesis
    using result_aggregate [OF example_csv_rows b n, of "example_api ''none''" "[]"]
    by (simp add: is_skipped_def row_decision_def e1 e2 obj_get_def numeral_2_eq_2)
qed

text \<open>
  C9 as stated fails: the run over the example file processes two rows and skips the
  second, and its detail list has the entry of the first row only.
\<close>

theorem result_aggregate_counterexample:
  "importVariants \<lparr>dryRun = True, batchSize = Some 10\<rparr> (example_api ''none'') [] example_csv =
     Some (Inr (\<lparr>success = 1, failed = 0, skipped = 1,
                 details =
                   [\<lparr>variantId = Some ''v1'', variantTitle = Some ''Small'',
                      metafieldResults =
                        [\<lparr>mr_success = True, mr_metafield = example_entry ''true'',
                           mr_extra = Action ''dry-run''\<rparr>]\<rparr>]\<rparr>, []))"
proof -
  have "importVariants_loop True 10 (example_api ''none'')
          [[(''variant_id'', ''v1''), (''variant_title'', ''Small''),
            (''metafield_custom_popular'', ''true'')],
           [(''variant_id'', ''v2''), (''variant_title'', ''Large''),
            (''metafield_custom_popular'', [])]] 0 (empty_results, []) =
        Some (\<lparr>success = 1, failed = 0, skipped = 1,
                 details =
                   [\<lparr>variantId = Some ''v1'', variantTitle = Some ''Small'',
                      metafieldResults =
                        [\<lparr>mr_success = True, mr_metafield = example_entry ''true'',
                           mr_extra = Action ''dry-run''\<rparr>]\<rparr>]\<rparr>, [])"
    apply (subst importVariants_loop.simps)
    apply (simp add: importVariants_body_def js_slice_def add_results_def batch_eval)
    apply (subst importVariants_loop.simps)
    apply simp
    done
  then show ?thesis
    by (simp add: importVariants_def example_csv_rows)
qed

text \<open>
  C10.  Empty cells never produce writes: every extracted entry has a non-empty value;
  a column with an empty cell contributes no entry for its namespace and key; hence
  every bulk update a batch sends, and every bulk update of a whole run, carries
  non-empty values only.
\<close>

theorem empty_cells_never_written:
  "(\<forall>m\<in>set (extractMetafields row). mf_value m \<noteq> [])
   \<and> (distinct (obj_keys row) \<longrightarrow> (column_name ns k, []) \<in> set row \<longrightarrow>
        \<not> (\<exists>m\<in>set (extractMetafields row). mf_namespace m = ns \<and> mf_key m = k))
   \<and> (\<exists>evs. snd (processBatch d api t rows) = t @ evs \<and> list_all nonempty_write evs)
   \<and> (0 < n \<longrightarrow>
        (\<exists>res evs. importVariants_loop d n api rows 0 (empty_results, t) = Some (res, t @ evs)
                    \<and> list_all nonempty_write evs))"
proof (intro conjI impI)
  show "\<forall>m\<in>set (extractMetafields row). mf_value m \<noteq> []"
    using extract_values_nonempty by blast
  show "\<not> (\<exists>m\<in>set (extractMetafields row). mf_namespace m = ns \<and> mf_key m = k)"
    if "distinct (obj_keys row)" "(column_name ns k, []) \<in> set row"
    using extract_from_column [OF that] by auto
  show "\<exists>evs. snd (processBatch d api t rows) = t @ evs \<and> list_all nonempty_write evs"
    using run_summary_batch [of d t rows api] by (simp add: run_summary_def)
  show "\<exists>res evs. importVariants_loop d n api rows 0 (empty_results, t) = Some (res, t @ evs)
                  \<and> list_all nonempty_write evs" if "0 < n"
    using run_summary_loop [OF that, of d api rows t] by (auto simp: run_summary_def)
qed

text \<open>
  A batch and a run over a row with an empty attribute cell.
\<close>

theorem empty_cells_never_written_witness:
  "extractMetafields (example_row ''v2'' []) = []
   \<and> snd (processBatch False (example_api ''none'') []
            [example_row ''v1'' ''true'', example_row ''v2'' []]) =
       [GetVariant (Some ''v1''), BulkUpdate ''p1'' (Some ''v1'') [example_entry ''true'']]
   \<and> (\<exists>res evs. importVariants_loop False 1 (example_api ''none'')
                    [example_row ''v1'' ''true'', example_row ''v2'' []] 0 (empty_results, []) =
                    Some (res, evs) \<and> list_all nonempty_write evs)"
proof -
  have d: "distinct (obj_keys (example_row ''v2'' []))"
    by (simp add: obj_keys_def example_row_def)
  have c: "(column_name ''custom'' ''popular'', []) \<in> set (example_row ''v2'' [])"
    by (simp add: column_name_def example_row_def)
  have n: "(0::int) < 1" by simp
  note T = empty_cells_never_written [of "example_row ''v2'' []" "''custom''" "''popular''"
      False "example_api ''none''" "[]" "[example_row ''v1'' ''true'', example_row ''v2'' []]" 1]
  have "extractMetafields (example_row ''v2'' []) = []"
    by (simp add: batch_eval)
  moreover have "snd (processBatch False (example_api ''none'') []
            [example_row ''v1'' ''true'', example_row ''v2'' []]) =
       [GetVariant (Some ''v1''), BulkUpdate ''p1'' (Some ''v1'') [example_entry ''true'']]"
    by (simp add: batch_eval)
  moreover have "\<exists>res evs. importVariants_loop False 1 (example_api ''none'')
                    [example_row ''v1'' ''true'', example_row ''v2'' []] 0 (empty_results, []) =
                    Some (res, evs) \<and> list_all nonempty_write evs"
    using T d c n by simp
  ultimately show ?thesis by blast
qed

section \<open>Properties of the tabular codec\<close>











lemma parseCSV_loop_char:
  "parseCSV_loop headers i ls (data, warnings) =
     (data @ map (\<lambda>l. make_row headers (parseCSVLine l)) (filter (well_formed_line headers) ls),
      warnings @ map (line_warning headers)
                   (filter (\<lambda>il. \<not> well_formed_line headers (snd il)) (enumerate i ls)))"
proof (induction ls arbitrary: i data warnings)
  case Nil
  then show ?case by simp
next
  case (Cons l ls)
  show ?case
  proof (cases "well_formed_line headers l")
    case True
    then show ?thesis
      using Cons.IH [of "i + 1" "data @ [make_row headers (parseCSVLine l)]" warnings]
      by (simp add: well_formed_line_def Let_def)
  next
    case False
    then show ?thesis
      using Cons.IH [of "i + 1" data
          "warnings @ [RowWarning (i + 1) (length (parseCSVLine l)) (length headers)]"]
      by (simp add: well_formed_line_def Let_def line_warning_def)
  qed
qed

lemma parseCSV_char:
  "parseCSV content =
     (if length (csv_lines content) < 2
      then Inl ''CSV file must have at least a header row and one data row''
      else Inr (map (\<lambda>l. make_row (csv_headers (hd (csv_lines content))) (parseCSVLine l))
                  (filter (well_formed_line (csv_headers (hd (csv_lines content))))
                     (tl (csv_lines content))),
                map (line_warning (csv_headers (hd (csv_lines content))))
                  (filter (\<lambda>il. \<not> well_formed_line (csv_headers (hd (csv_lines content))) (snd il))
                     (enumerate 1 (tl (csv_lines content))))))"
  by (simp add: parseCSV_def Let_def csv_lines_def csv_headers_def parseCSV_loop_char)

text \<open>
  C8 (amended).  For every text with a header line and at least one more non-blank
  line, parsing does not fail: the rows are those of the data lines whose number of
  fields, as the quote-aware line parser finds them, equals the number of column names,
  in order; every other data line is dropped with one warning and yields no row, and an
  import run records outcomes for the remaining rows only.
\<close>

theorem malformed_lines_dropped:
  assumes "2 \<le> length (csv_lines content)"
    and "headers = csv_headers (hd (csv_lines content))"
  shows "parseCSV content =
           Inr (map (\<lambda>l. make_row headers (parseCSVLine l))
                  (filter (well_formed_line headers) (tl (csv_lines content))),
                map (line_warning headers)
                  (filter (\<lambda>il. \<not> well_formed_line headers (snd il))
                     (enumerate 1 (tl (csv_lines content)))))
       \<and> (batchSize cfg = Some n \<longrightarrow> 0 < n \<longrightarrow>
            (\<exists>res t'. importVariants cfg api t content = Some (Inr (res, t'))
               \<and> success res + failed res + skipped res =
                   length (filter (well_formed_line headers) (tl (csv_lines content)))))"
proof (intro conjI impI)
  let ?rows = "map (\<lambda>l. make_row headers (parseCSVLine l))
                 (filter (well_formed_line headers) (tl (csv_lines content)))"
  let ?ws = "map (line_warning headers)
               (filter (\<lambda>il. \<not> well_formed_line headers (snd il))
                  (enumerate 1 (tl (csv_lines content))))"
  show p: "parseCSV content = Inr (?rows, ?ws)"
    using assms by (simp add: parseCSV_char)
  show "\<exists>res t'. importVariants cfg api t content = Some (Inr (res, t'))
          \<and> success res + failed res + skipped res =
              length (filter (well_formed_line headers) (tl (csv_lines content)))"
    if b: "batchSize cfg = Some n" and n: "0 < n"
  proof -
    from importVariants_run [OF p b n, of api t]
    obtain res t' where r: "importVariants cfg api t content = Some (Inr (res, t'))"
      and s: "run_summary (dryRun cfg) t ?rows (res, t')"
      by auto
    have "length (filter is_skipped ?rows) + length (filter (\<lambda>v. \<not> is_skipped v) ?rows)
            = length ?rows"
      using sum_length_filter_compl [of is_skipped ?rows] by simp
    with r s show ?thesis by (simp add: run_summary_def)
  qed
qed

lemmas line_eval =
  csv_lines_def csv_headers_def well_formed_line_def line_warning_def enumerate_eq_zip

text \<open>
  A file whose second data line has one field instead of two: the line is dropped with
  a warning for row 3, the other two lines are parsed and processed.
\<close>

theorem malformed_lines_dropped_witness:
  "parseCSV short_line_csv =
     Inr ([[(''variant_id'', ''v1''), (''metafield_custom_popular'', ''true'')],
           [(''variant_id'', ''v3''), (''metafield_custom_popular'', ''false'')]],
          [RowWarning 3 1 2])
   \<and> (\<exists>res t'. importVariants \<lparr>dryRun = True, batchSize = Some 10\<rparr> unknown_variant_api []
                    short_line_csv = Some (Inr (res, t'))
         \<and> success res + failed res + skipped res = 2)"
proof -
  have l: "csv_lines short_line_csv =
             [''variant_id,metafield_custom_popular'', ''v1,true'', ''v2'', ''v3,false'']"
    by (simp add: short_line_csv_def csv_lines_def js_trim_def is_ws_def)
  have len: "2 \<le> length (csv_lines short_line_csv)" unfolding l by simp
  have h: "[''variant_id'', ''metafield_custom_popular''] =
             csv_headers (hd (csv_lines short_line_csv))"
    unfolding l by (simp add: csv_headers_def js_trim_def is_ws_def)
  have b: "batchSize \<lparr>dryRun = True, batchSize = Some 10\<rparr> = Some 10" by simp
  show ?thesis
    using malformed_lines_dropped [OF len h, of "\<lparr>dryRun = True, batchSize = Some 10\<rparr>" 10
        unknown_variant_api "[]"] b
    unfolding l
    by (simp add: well_formed_line_def line_warning_def enumerate_eq_zip csv_eval numeral_2_eq_2)
qed

text \<open>
  C8 as stated fails: splitting the data line at every comma gives three fields for two
  column names, yet the line is not dropped, since its first comma stands inside
  quotes.
\<close>

theorem malformed_lines_counterexample:
  "length (js_split comma ([dquote] @ ''v,1'' @ [dquote] @ '',hello'')) = 3
   \<and> length (js_split comma ''variant_id,metafield_custom_note'') = 2
   \<and> parseCSV quoted_comma_csv =
       Inr ([[(''variant_id'', ''v,1''), (''metafield_custom_note'', ''hello'')]], [])"
  by (simp add: quoted_comma_csv_def csv_eval)

subsection \<open>Splitting and joining\<close>







subsection \<open>Blank lines\<close>





subsection \<open>The line parser on encoded fields\<close>








subsection \<open>Rows as objects\<close>






subsection \<open>Encoding, then decoding\<close>








end
